theory Spec2Isabelle
  imports Main
begin

section \<open>Python primitives used by both parsers\<close>

text \<open>
  Exceptions are values. A function that can raise returns \<open>error + 'a\<close>, with
  \<open>Inl\<close> the exception that leaves the function.
\<close>

datatype error = IndexError | KeyError | ValueError | WordsException

definition bindE :: "error + 'a \<Rightarrow> ('a \<Rightarrow> error + 'b) \<Rightarrow> error + 'b" where
  "bindE m f = (case m of Inl e \<Rightarrow> Inl e | Inr x \<Rightarrow> f x)"

text \<open>A \<open>for\<close> loop over a list whose body may raise: the first exception ends the loop.\<close>

fun foldE :: "('a \<Rightarrow> 's \<Rightarrow> error + 's) \<Rightarrow> 'a list \<Rightarrow> 's \<Rightarrow> error + 's" where
  "foldE f [] s = Inr s"
| "foldE f (x # xs) s = (case f x s of Inl e \<Rightarrow> Inl e | Inr s' \<Rightarrow> foldE f xs s')"

text \<open>\<open>xs[i]\<close>: a negative index counts from the end, an index out of range raises.\<close>

definition py_getitem :: "'a list \<Rightarrow> int \<Rightarrow> error + 'a" where
  "py_getitem xs i =
     (if 0 \<le> i \<and> i < int (length xs) then Inr (xs ! nat i)
      else if i < 0 \<and> - int (length xs) \<le> i then Inr (xs ! nat (int (length xs) + i))
      else Inl IndexError)"

text \<open>\<open>xs[i:j]\<close> for literal bounds \<open>0 \<le> i \<le> j\<close>: slices never raise.\<close>

definition py_slice :: "'a list \<Rightarrow> nat \<Rightarrow> nat \<Rightarrow> 'a list" where
  "py_slice xs i j = take (j - i) (drop i xs)"

text \<open>\<open>xs.index(x)\<close>: the first position of \<open>x\<close>, ValueError when it is absent.\<close>

fun py_index :: "'a list \<Rightarrow> 'a \<Rightarrow> error + nat" where
  "py_index [] x = Inl ValueError"
| "py_index (y # ys) x =
     (if y = x then Inr 0 else (case py_index ys x of Inl e \<Rightarrow> Inl e | Inr k \<Rightarrow> Inr (Suc k)))"

text \<open>\<open>s.endswith(t)\<close> and \<open>s.startswith(t)\<close>.\<close>

definition endswith :: "string \<Rightarrow> string \<Rightarrow> bool" where
  "endswith s t = (length t \<le> length s \<and> drop (length s - length t) s = t)"

definition startswith :: "string \<Rightarrow> string \<Rightarrow> bool" where
  "startswith s t = (take (length t) s = t)"

text \<open>
  \<open>re.sub(t + "$", "", s)\<close> and \<open>re.sub("^" + t, "", s)\<close> for an affix \<open>t\<close> made of
  letters (no regular-expression operator) and a text \<open>s\<close> without line breaks: the
  anchored pattern matches at most once, at the end (the start) of \<open>s\<close>.
\<close>

definition sub_suffix :: "string \<Rightarrow> string \<Rightarrow> string" where
  "sub_suffix t s = (if endswith s t then take (length s - length t) s else s)"

definition sub_prefix :: "string \<Rightarrow> string \<Rightarrow> string" where
  "sub_prefix t s = (if startswith s t then drop (length t) s else s)"

section \<open>The data layer\<close>

text \<open>
  The tables are dictionaries of the source. The encoded form of a stem or an ending is
  a Python sequence: a string (a sequence of characters) for \<open>parse.py\<close>, which
  slices it by character position, and a sequence of feature names for \<open>parser.py\<close>,
  which decodes it slot by slot. The records take the element type as a parameter.
\<close>

record 'a Stem =
  stem_orth :: string
  stem_pos :: string
  stem_form :: "'a list"
  stem_n :: "int list"
  stem_wid :: int
  stem_props :: string

record 'a Inflect =
  infl_ending :: string
  infl_pos :: string
  infl_n :: "int list"
  infl_form :: "'a list"
  infl_iid :: int

record DictEntry =
  entry_id :: int
  entry_pos :: string
  entry_parts :: "string list"
  entry_senses :: "string list"

record Addon =
  addon_orth :: string
  addon_pos :: string
  addon_senses :: "string list"
  addon_aid :: "int option"

record 'a Unique =
  uq_orth :: string
  uq_pos :: string
  uq_n :: "int list option"
  uq_form :: "'a list"
  uq_senses :: "string list"

text \<open>
  \<open>wordlist[i]\<close> is a dictionary entry or an empty slot (a falsy value): the slot is
  an option.
\<close>

type_synonym wordlist = "DictEntry option list"

section \<open>parse.py: the congruence check\<close>

text \<open>
  \<open>Parser.check_match\<close>. The \<open>try\<close> block covers the look-up in the word list and
  the test for an empty slot only; the reads of \<open>parts\<close>, \<open>n\<close> and \<open>form\<close> are
  outside of it. The value returned is read as a truth value by the caller.
\<close>

definition check_match :: "wordlist \<Rightarrow> char Stem \<Rightarrow> char Inflect \<Rightarrow> error + bool" where
  "check_match wl stem infl =
    (if infl_pos infl \<noteq> stem_pos stem then
       (if infl_pos infl = ''VPAR'' \<and> stem_pos stem = ''V'' then
          (case py_getitem wl (stem_wid stem) of
             Inl e \<Rightarrow> Inr False
           | Inr None \<Rightarrow> Inr False
           | Inr (Some wrd) \<Rightarrow>
               (if py_slice (infl_form infl) 8 12 = ''PERF''
                then bindE (py_getitem (entry_parts wrd) (- 1)) (\<lambda>p. Inr (stem_orth stem = p))
                else bindE (py_getitem (entry_parts wrd) 0) (\<lambda>p. Inr (stem_orth stem = p))))
        else Inr False)
     else
       (let dflt =
          (if length (stem_n stem) = 0 then Inr False
           else bindE (py_getitem (infl_n infl) 0) (\<lambda>a.
                bindE (py_getitem (stem_n stem) 0) (\<lambda>b. Inr (a = b))))
        in
        if stem_pos stem = ''N'' then
          bindE (if infl_n infl = stem_n stem then Inr True
                 else bindE (py_getitem (infl_n infl) 0) (\<lambda>a.
                      bindE (py_getitem (stem_n stem) 0) (\<lambda>b.
                        if a = b then bindE (py_getitem (infl_n infl) (- 1)) (\<lambda>c. Inr (c = 0))
                        else Inr False)))
            (\<lambda>agree.
               if agree then
                 bindE (py_getitem (infl_form infl) (- 1)) (\<lambda>g.
                 bindE (py_getitem (stem_form stem) 0) (\<lambda>h.
                   if g = h then Inr True
                   else bindE (py_getitem (infl_form infl) (- 1)) (\<lambda>g'. Inr (g' = CHR ''C''))))
               else dflt)
        else if stem_pos stem = ''ADV'' then
          (if stem_form stem = ''X'' then
             (case py_getitem wl (stem_wid stem) of
                Inl e \<Rightarrow> Inr False
              | Inr None \<Rightarrow> Inr False
              | Inr (Some wrd) \<Rightarrow> Inr (stem_orth stem \<in> set (entry_parts wrd)))
           else Inr (stem_form stem = infl_form infl))
        else dflt))"

section \<open>parse.py: assembling stems and endings\<close>

text \<open>
  A matched stem is the dictionary \<open>{'st': ..., 'infls': [...]}\<close>, to which
  \<open>analyze_forms\<close> adds the key \<open>'encl'\<close> (the empty string, here \<open>None\<close>, when the
  word carries no enclitic).
\<close>

record matched_stem =
  ms_st :: "char Stem"
  ms_infls :: "char Inflect list"
  ms_encl :: "Addon option"

text \<open>
  The tables held by the \<open>Parser\<close> object. \<open>inflects\<close> is keyed by \<open>str(k)\<close> for a
  length \<open>k\<close>: the key is represented by \<open>k\<close> itself.
\<close>

record 'a Parser =
  wordlist :: wordlist
  wordkeys :: "string set"
  stems :: "string \<rightharpoonup> 'a Stem list"
  uniques :: "string \<rightharpoonup> 'a Unique list"
  inflects :: "nat \<rightharpoonup> (string \<rightharpoonup> 'a Inflect list)"
  addons :: "string \<rightharpoonup> Addon list"

text \<open>
  A Python dictionary keeps its keys in insertion order: an association list with
  distinct keys. Storing under a key that exists keeps its place.
\<close>

fun od_update :: "('k \<times> 'v) list \<Rightarrow> 'k \<Rightarrow> 'v \<Rightarrow> ('k \<times> 'v) list" where
  "od_update [] k v = [(k, v)]"
| "od_update ((k', v') # kvs) k v =
     (if k' = k then (k, v) # kvs else (k', v') # od_update kvs k v)"

definition od_values :: "('k \<times> 'v) list \<Rightarrow> 'v list" where
  "od_values kvs = map snd kvs"

text \<open>
  The \<open>for ... else\<close> over \<open>matched_stems[orth]\<close>: the ending joins the first matched
  stem of the same headword, or a new matched stem is appended.
\<close>

fun add_infl :: "matched_stem list \<Rightarrow> char Stem \<Rightarrow> char Inflect \<Rightarrow> matched_stem list" where
  "add_infl [] stem_cand infl_cand =
     [\<lparr>ms_st = stem_cand, ms_infls = [infl_cand], ms_encl = None\<rparr>]"
| "add_infl (m # ms) stem_cand infl_cand =
     (if stem_wid (ms_st m) = stem_wid stem_cand
      then m\<lparr>ms_infls := ms_infls m @ [infl_cand]\<rparr> # ms
      else m # add_infl ms stem_cand infl_cand)"

definition record_match ::
  "(string \<times> matched_stem list) list \<Rightarrow> char Stem \<Rightarrow> char Inflect
     \<Rightarrow> (string \<times> matched_stem list) list" where
  "record_match matched_stems stem_cand infl_cand =
     (case map_of matched_stems (stem_orth stem_cand) of
        Some ms \<Rightarrow> od_update matched_stems (stem_orth stem_cand) (add_infl ms stem_cand infl_cand)
      | None \<Rightarrow>
          od_update matched_stems (stem_orth stem_cand)
            [\<lparr>ms_st = stem_cand, ms_infls = [infl_cand], ms_encl = None\<rparr>])"

definition match_pair ::
  "wordlist \<Rightarrow> char Stem \<Rightarrow> char Inflect \<Rightarrow> (string \<times> matched_stem list) list
     \<Rightarrow> error + (string \<times> matched_stem list) list" where
  "match_pair wl stem_cand infl_cand matched_stems =
     bindE (check_match wl stem_cand infl_cand)
       (\<lambda>ok. Inr (if ok then record_match matched_stems stem_cand infl_cand else matched_stems))"

text \<open>The body of the loop over \<open>infls\<close>; \<open>form[:-k]\<close> is empty when \<open>k\<close> exceeds the length.\<close>

definition match_lemma ::
  "char Parser \<Rightarrow> string \<Rightarrow> char Inflect list \<Rightarrow> (string \<times> matched_stem list) list
     \<Rightarrow> error + (string \<times> matched_stem list) list" where
  "match_lemma p form infl_lemma matched_stems =
     bindE (py_getitem infl_lemma 0) (\<lambda>i0.
       let stem_lemma =
             (if length (infl_ending i0) \<noteq> 0
              then take (length form - length (infl_ending i0)) form else form)
       in case stems p stem_lemma of
            None \<Rightarrow> Inr matched_stems
          | Some stem_list \<Rightarrow>
              foldE (\<lambda>stem_cand. foldE (match_pair (wordlist p) stem_cand) infl_lemma)
                stem_list matched_stems)"

definition Parser_match_stems_inflections ::
  "char Parser \<Rightarrow> string \<Rightarrow> char Inflect list list
     \<Rightarrow> error + (string \<times> matched_stem list) list" where
  "Parser_match_stems_inflections p form infls = foldE (match_lemma p form) infls []"

section \<open>parse.py: resolving the headword\<close>

text \<open>\<open>xs.remove(x)\<close>: the first element equal to \<open>x\<close> goes, ValueError when there is none.\<close>

definition py_remove :: "'a \<Rightarrow> 'a list \<Rightarrow> error + 'a list" where
  "py_remove x xs = (if x \<in> set xs then Inr (remove1 x xs) else Inl ValueError)"

text \<open>\<open>Parser.remove_extra_infls\<close>: the loop runs over a copy of the list it shrinks.\<close>

definition remove_extra_infls :: "matched_stem \<Rightarrow> string \<Rightarrow> error + matched_stem" where
  "remove_extra_infls stem remove_type =
     bindE (foldE (\<lambda>infl xs. if infl_pos infl = remove_type then py_remove infl xs else Inr xs)
              (ms_infls stem) (ms_infls stem))
       (\<lambda>xs. Inr (stem\<lparr>ms_infls := xs\<rparr>))"

text \<open>An entry of the list returned by \<open>lookup_stems\<close>.\<close>

record stem_result =
  res_w :: DictEntry
  res_enclitic :: "Addon option"
  res_stems :: "matched_stem list"

text \<open>
  The search of \<open>results\<close> for the headword: \<open>None\<close> when no entry has the id
  (\<open>is_in_results\<close> stays false), otherwise the results with the stem appended to the
  first entry of that id, unless an equal stem is there.
\<close>

fun merge_result :: "stem_result list \<Rightarrow> DictEntry \<Rightarrow> matched_stem \<Rightarrow> stem_result list option" where
  "merge_result [] dict_word stem = None"
| "merge_result (word # results) dict_word stem =
     (if entry_id dict_word = entry_id (res_w word)
      then Some ((if stem \<in> set (res_stems word) then word
                  else word\<lparr>res_stems := res_stems word @ [stem]\<rparr>) # results)
      else map_option (\<lambda>rs. word # rs) (merge_result results dict_word stem))"

text \<open>The verb and participle decision, taken for a headword that enters the results.\<close>

definition disambiguate :: "DictEntry \<Rightarrow> matched_stem \<Rightarrow> error + matched_stem" where
  "disambiguate dict_word stem =
     (if entry_pos dict_word = ''V'' then
        bindE (py_index (entry_parts dict_word) (stem_orth (ms_st stem)))
          (\<lambda>k. if k = 3 then remove_extra_infls stem ''V''
                else remove_extra_infls stem ''VPAR'')
      else Inr stem)"

definition lookup_stem_step :: "wordlist \<Rightarrow> matched_stem \<Rightarrow> stem_result list \<Rightarrow> error + stem_result list" where
  "lookup_stem_step wl stem results =
     (case py_getitem wl (stem_wid (ms_st stem)) of
        Inl e \<Rightarrow> Inr results
      | Inr None \<Rightarrow> Inr results
      | Inr (Some dict_word) \<Rightarrow>
          (case merge_result results dict_word stem of
             Some results' \<Rightarrow> Inr results'
           | None \<Rightarrow>
               bindE (disambiguate dict_word stem)
                 (\<lambda>stem'. Inr (results @
                    [\<lparr>res_w = dict_word, res_enclitic = ms_encl stem', res_stems = [stem']\<rparr>]))))"

definition lookup_stems :: "wordlist \<Rightarrow> (string \<times> matched_stem list) list \<Rightarrow> error + stem_result list" where
  "lookup_stems wl match_stems = foldE (lookup_stem_step wl) (concat (od_values match_stems)) []"

section \<open>parse.py: the pipeline for one segmentation\<close>

text \<open>The dictionary \<open>{'base': ..., 'encl': ...}\<close> built by the segmenter.\<close>

record word =
  base :: string
  encl :: "Addon option"

text \<open>
  The candidate endings of \<open>analyze_forms\<close>: the group of empty endings when the form
  is a known full form (a missing key raises), then one group per suffix length from 1
  below \<open>min(8, len(form))\<close> that the table knows.
\<close>

definition Parser_viable_inflections :: "char Parser \<Rightarrow> string \<Rightarrow> error + char Inflect list list" where
  "Parser_viable_inflections p form =
     bindE (if form \<in> wordkeys p then
              (case inflects p 0 of
                 None \<Rightarrow> Inl KeyError
               | Some m \<Rightarrow> (case m [] of None \<Rightarrow> Inl KeyError | Some infl \<Rightarrow> Inr [infl]))
            else Inr [])
       (\<lambda>v0. Inr (fold (\<lambda>inflect_length v.
                    let end_of_word = drop (length form - inflect_length) form
                    in case inflects p inflect_length of
                         None \<Rightarrow> v
                       | Some m \<Rightarrow> (case m end_of_word of None \<Rightarrow> v | Some infl \<Rightarrow> v @ [infl]))
                  [1 ..< min 8 (length form)] v0))"

definition set_encl ::
  "Addon option \<Rightarrow> (string \<times> matched_stem list) list \<Rightarrow> (string \<times> matched_stem list) list" where
  "set_encl e match_stems = map (\<lambda>(k, stemlist). (k, map (\<lambda>stem. stem\<lparr>ms_encl := e\<rparr>) stemlist)) match_stems"

text \<open>The part of \<open>analyze_forms\<close> before the test of its result.\<close>

definition analyze_direct :: "char Parser \<Rightarrow> word \<Rightarrow> error + stem_result list" where
  "analyze_direct p w =
     bindE (Parser_viable_inflections p (base w)) (\<lambda>viable.
     bindE (Parser_match_stems_inflections p (base w) viable) (\<lambda>match_stems.
       lookup_stems (wordlist p) (set_encl (encl w) match_stems)))"

text \<open>The first entry of an affix table that the text starts (or ends) with.\<close>

fun first_prefix :: "Addon list \<Rightarrow> string \<Rightarrow> Addon option" where
  "first_prefix [] s = None"
| "first_prefix (prefix # rest) s =
     (if startswith s (addon_orth prefix) then Some prefix else first_prefix rest s)"

fun first_suffix :: "Addon list \<Rightarrow> string \<Rightarrow> Addon option" where
  "first_suffix [] s = None"
| "first_suffix (suffix # rest) s =
     (if endswith s (addon_orth suffix) then Some suffix else first_suffix rest s)"

text \<open>
  The base that \<open>reduce\<close> analyses: both loops stop at their first match. The entries
  that the loops append to \<open>out\<close> are dropped when \<open>out\<close> is bound again to the result
  of \<open>analyze_forms\<close>, before anything reads them.
\<close>

definition reduce_base :: "char Parser \<Rightarrow> string \<Rightarrow> string" where
  "reduce_base p s0 =
     (let s1 = (case addons p ''prefixes'' of
                  None \<Rightarrow> s0
                | Some prefixes \<Rightarrow>
                    (case first_prefix prefixes s0 of
                       None \<Rightarrow> s0 | Some prefix \<Rightarrow> sub_prefix (addon_orth prefix) s0))
      in (case addons p ''suffixes'' of
            None \<Rightarrow> s1
          | Some suffixes \<Rightarrow>
              (case first_suffix suffixes s1 of
                 None \<Rightarrow> s1 | Some suffix \<Rightarrow> sub_suffix (addon_orth suffix) s1)))"

text \<open>
  \<open>analyze_forms\<close> and \<open>reduce\<close> call each other; the flag \<open>reduced\<close> is what ends
  the recursion.
\<close>

function analyze_forms :: "char Parser \<Rightarrow> word \<Rightarrow> bool \<Rightarrow> error + stem_result list"
  and reduce :: "char Parser \<Rightarrow> word \<Rightarrow> error + stem_result list" where
  "analyze_forms p w reduced =
     (case analyze_direct p w of
        Inl e \<Rightarrow> Inl e
      | Inr forms \<Rightarrow>
          if length forms \<noteq> 0 then Inr forms
          else if \<not> reduced then reduce p w
          else Inr [])"
| "reduce p option =
     (case analyze_forms p (option\<lparr>base := reduce_base p (base option)\<rparr>) True of
        Inl e \<Rightarrow> Inl e
      | Inr out \<Rightarrow>
          (let found_new_match = (\<exists>r \<in> set out. length (res_stems r) > 0)
           in if out \<noteq> [] \<and> \<not> found_new_match then Inr [] else Inr out))"
  by pat_completeness auto
termination
  by (relation "measure (\<lambda>x. case x of Inl (p, w, reduced) \<Rightarrow> (if reduced then 0 else 2)
                                    | Inr (p, option) \<Rightarrow> 1)") auto

section \<open>parse.py: the segmenter and the entry point\<close>

text \<open>The loop over the tackons: every match is kept, unless the text is \<open>est\<close>.\<close>

definition tackon_step :: "string \<Rightarrow> Addon \<Rightarrow> word list \<Rightarrow> word list" where
  "tackon_step s e result =
     (if endswith s (addon_orth e) then
        (if s \<noteq> ''est'' then result @ [\<lparr>base = sub_suffix (addon_orth e) s, encl = Some e\<rparr>]
         else result)
      else result)"

text \<open>The loop over the packons or not_packons: it breaks at the first match with a base.\<close>

fun packon_loop :: "string \<Rightarrow> Addon list \<Rightarrow> word list \<Rightarrow> word list" where
  "packon_loop s [] result = result"
| "packon_loop s (e # es) result =
     (if endswith s (addon_orth e) then
        (let b = sub_suffix (addon_orth e) s
         in if b \<noteq> [] then result @ [\<lparr>base = b, encl = Some e\<rparr>]
            else packon_loop s es result)
      else packon_loop s es result)"

definition Parser_split_form_enclitic :: "char Parser \<Rightarrow> string \<Rightarrow> word list" where
  "Parser_split_form_enclitic p s =
     (let result0 = [\<lparr>base = s, encl = None\<rparr>];
          result1 = (case addons p ''tackons'' of
                       None \<Rightarrow> result0
                     | Some es \<Rightarrow> fold (tackon_step s) es result0);
          lst = (if startswith s ''qu'' then ''packons'' else ''not_packons'')
      in case addons p lst of
           None \<Rightarrow> result1
         | Some es \<Rightarrow> packon_loop s es result1)"

text \<open>
  A \<open>char\<close> stands for a code point below 256. \<open>str.isalpha\<close>: the text is not empty
  and every character is a letter; below 256 the letters are those of ASCII, the code
  points 170, 181 and 186, and 192 to 255 without the signs 215 and 247.
\<close>

definition is_letter :: "char \<Rightarrow> bool" where
  "is_letter c =
     (let k = (of_char c :: nat)
      in (65 \<le> k \<and> k \<le> 90) \<or> (97 \<le> k \<and> k \<le> 122) \<or> k = 170 \<or> k = 181 \<or> k = 186
         \<or> (192 \<le> k \<and> k \<le> 214) \<or> (216 \<le> k \<and> k \<le> 246) \<or> (248 \<le> k \<and> k \<le> 255))"

definition isalpha :: "string \<Rightarrow> bool" where
  "isalpha s = (s \<noteq> [] \<and> list_all is_letter s)"

text \<open>
  An entry of \<open>parse_result\<close>: built from a unique (its \<open>stems\<close> are empty) or
  returned by \<open>analyze_forms\<close>.
\<close>

datatype parse_item =
  UniqueItem "char Unique" "Addon option"
| StemItem stem_result

text \<open>
  The body of the loop of \<open>Parser.parse\<close>: the uniques are appended to
  \<open>parse_result\<close>, the result of \<open>analyze_forms\<close> is assigned to it.
\<close>

definition parse_step :: "char Parser \<Rightarrow> word \<Rightarrow> parse_item list \<Rightarrow> error + parse_item list" where
  "parse_step p w parse_result =
     (case uniques p (base w) of
        Some unique_forms \<Rightarrow>
          Inr (parse_result @ map (\<lambda>unique_form. UniqueItem unique_form (encl w)) unique_forms)
      | None \<Rightarrow> bindE (analyze_forms p w False) (\<lambda>forms. Inr (map StemItem forms)))"

text \<open>
  \<open>Parser.parse\<close>, up to the call of the formatter: the value is the list handed to
  \<open>format_output\<close>.
\<close>

definition Parser_parse :: "char Parser \<Rightarrow> string \<Rightarrow> error + parse_item list" where
  "Parser_parse p text =
     (if \<not> isalpha text then Inl WordsException
      else foldE (parse_step p) (Parser_split_form_enclitic p text) [])"

section \<open>parser.py: the modules it imports\<close>

text \<open>
  A member of a Python \<open>Enum\<close> is known by its class and its name: \<open>WordType.N\<close> is
  \<open>EnumMember ''WordType'' ''N''\<close>, and \<open>member.name\<close> is the second component.
\<close>

datatype enum_member = EnumMember (enum_class: string) (member_name: string)

text \<open>
  The modules \<open>enums\<close> and \<open>matcher\<close> are not part of the sources at hand. What
  \<open>parser.py\<close> uses of them is a parameter: the function \<open>get_enum_value\<close>, the
  names of the members of the enum \<open>Gender\<close> (so that \<open>Gender[name]\<close> is the member of
  that name, or a KeyError), and the result of \<open>Matcher(stem, infl).check()\<close>.

  The order in which the interpreter iterates over a set of strings depends on the hash
  seed of the process. It is a parameter too: \<open>set_iteration xs\<close> is the order in which
  the set built from the items of \<open>xs\<close> is iterated. Whatever the seed, it lists every
  member of the set once, which is the predicate \<open>iterates_set\<close>.
\<close>

record modules =
  get_enum_value :: "string \<Rightarrow> string \<Rightarrow> error + enum_member"
  Gender_names :: "string list"
  Matcher_check :: "string Stem \<Rightarrow> string Inflect \<Rightarrow> error + bool"
  set_iteration :: "string list \<Rightarrow> string list"


definition Gender_getitem :: "modules \<Rightarrow> string \<Rightarrow> error + enum_member" where
  "Gender_getitem E name =
     (if name \<in> set (Gender_names E) then Inr (EnumMember ''Gender'' name) else Inl KeyError)"

text \<open>The data layer: the tables of the old parser and the table of empty endings.\<close>

record 'a DataLayer = "'a Parser" +
  empty :: "string \<rightharpoonup> 'a Inflect list"

section \<open>parser.py: the view objects\<close>

text \<open>
  \<open>Inflection\<close> and its subclass \<open>UniqueInflection\<close>, which sets \<open>category\<close> only when
  the unique has the key \<open>n\<close> and never sets \<open>id\<close>. \<open>features\<close> is a dictionary.
\<close>

record Inflection =
  i_wordType :: enum_member
  i_category :: "int list option"
  i_stem :: string
  i_affix :: string
  i_features :: "(string \<times> enum_member) list"
  i_id :: "int option"

text \<open>The feature slots per word type; \<open>None\<close> is the \<open>return\<close> of the last branch.\<close>

definition feature_slots :: "enum_member \<Rightarrow> string list option" where
  "feature_slots wt =
     (if wt = EnumMember ''WordType'' ''N'' then Some [''Case'', ''Number'', ''Gender'']
      else if wt = EnumMember ''WordType'' ''NUM''
        then Some [''Case'', ''Number'', ''Gender'', ''NumeralType'']
      else if wt = EnumMember ''WordType'' ''PRON''
        then Some [''Case'', ''Number'', ''Gender'', ''PronounType'']
      else if wt = EnumMember ''WordType'' ''ADJ''
        then Some [''Case'', ''Number'', ''Gender'', ''Degree'']
      else if wt = EnumMember ''WordType'' ''V''
        then Some [''Tense'', ''Voice'', ''Mood'', ''Person'', ''Number'']
      else if wt = EnumMember ''WordType'' ''VPAR''
        then Some [''Case'', ''Number'', ''Gender'', ''Tense'', ''Voice'']
      else if wt = EnumMember ''WordType'' ''ADV'' then Some [''Degree'']
      else None)"

text \<open>
  \<open>analyse_features\<close>: \<open>enumerate(features[: len(lst)])\<close> pairs each slot with the
  feature at its position, as far as both lists go.
\<close>

definition analyse_features ::
  "modules \<Rightarrow> enum_member \<Rightarrow> string list \<Rightarrow> (string \<times> enum_member) list
     \<Rightarrow> error + (string \<times> enum_member) list" where
  "analyse_features E wt features dict =
     (case feature_slots wt of
        None \<Rightarrow> Inr dict
      | Some lst \<Rightarrow>
          foldE (\<lambda>(slot, feature) d.
                   bindE (get_enum_value E slot feature) (\<lambda>v. Inr (od_update d slot v)))
            (zip lst features) dict)"

text \<open>\<open>override_features\<close>: the gender of a noun is the one its stem names first.\<close>

definition override_features ::
  "modules \<Rightarrow> enum_member \<Rightarrow> string Stem \<Rightarrow> (string \<times> enum_member) list
     \<Rightarrow> error + (string \<times> enum_member) list" where
  "override_features E wt stem dict =
     (if wt = EnumMember ''WordType'' ''N'' \<and> stem_form stem \<noteq> [] then
        bindE (py_getitem (stem_form stem) 0) (\<lambda>g.
        bindE (Gender_getitem E g) (\<lambda>v. Inr (od_update dict ''Gender'' v)))
      else Inr dict)"

definition Inflection_init :: "modules \<Rightarrow> string Inflect \<Rightarrow> string Stem \<Rightarrow> error + Inflection" where
  "Inflection_init E infl stem =
     bindE (get_enum_value E ''WordType'' (infl_pos infl)) (\<lambda>wt.
     bindE (analyse_features E wt (infl_form infl) []) (\<lambda>d1.
     bindE (override_features E wt stem d1) (\<lambda>d2.
       Inr \<lparr>i_wordType = wt, i_category = Some (infl_n infl), i_stem = stem_orth stem,
            i_affix = infl_ending infl, i_features = d2, i_id = Some (infl_iid infl)\<rparr>)))"

definition UniqueInflection_init :: "modules \<Rightarrow> string Unique \<Rightarrow> error + Inflection" where
  "UniqueInflection_init E unique =
     bindE (get_enum_value E ''WordType'' (uq_pos unique)) (\<lambda>wt.
     bindE (analyse_features E wt (uq_form unique) []) (\<lambda>d.
       Inr \<lparr>i_wordType = wt, i_category = uq_n unique, i_stem = uq_orth unique,
            i_affix = [], i_features = d, i_id = None\<rparr>))"

text \<open>
  Equality of two dictionaries, whatever the order of their keys, and
  \<open>Inflection.__eq__\<close>.
\<close>

definition dict_eq :: "('k \<times> 'v) list \<Rightarrow> ('k \<times> 'v) list \<Rightarrow> bool" where
  "dict_eq a b = list_all (\<lambda>k. map_of a k = map_of b k) (map fst a @ map fst b)"

definition Inflection_eq :: "Inflection \<Rightarrow> Inflection \<Rightarrow> bool" where
  "Inflection_eq a b =
     (i_affix a = i_affix b \<and> i_wordType a = i_wordType b \<and> i_category a = i_category b
      \<and> dict_eq (i_features a) (i_features b))"

text \<open>\<open>Lexeme\<close> and its subclass \<open>UniqueLexeme\<close> (\<open>l_unique\<close> is the \<open>isinstance\<close> test).\<close>

record Lexeme =
  l_id :: int
  l_category :: "int list"
  l_roots :: "string list"
  l_senses :: "string list"
  l_wordType :: enum_member
  l_form :: "string list"
  l_props :: string
  l_unique :: bool

definition Lexeme_init :: "modules \<Rightarrow> string Stem \<Rightarrow> error + Lexeme" where
  "Lexeme_init E stem =
     bindE (get_enum_value E ''WordType'' (stem_pos stem)) (\<lambda>wt.
       Inr \<lparr>l_id = stem_wid stem, l_category = stem_n stem, l_roots = [], l_senses = [],
            l_wordType = wt, l_form = stem_form stem, l_props = stem_props stem,
            l_unique = False\<rparr>)"

definition UniqueLexeme_init :: "modules \<Rightarrow> string Unique \<Rightarrow> error + Lexeme" where
  "UniqueLexeme_init E unique =
     bindE (get_enum_value E ''WordType'' (uq_pos unique)) (\<lambda>wt.
       Inr \<lparr>l_id = 0, l_category = [], l_roots = [], l_senses = uq_senses unique,
            l_wordType = wt, l_form = [], l_props = [], l_unique = True\<rparr>)"

text \<open>
  \<open>str.split()\<close>: the runs of characters between white space. Below 256 the white
  space of \<open>str\<close> is 9 to 13, 28 to 32, 133 and 160.
\<close>

definition is_space :: "char \<Rightarrow> bool" where
  "is_space c = ((of_char c :: nat) \<in> {9, 10, 11, 12, 13, 28, 29, 30, 31, 32, 133, 160})"

fun split_acc :: "string \<Rightarrow> string \<Rightarrow> string list" where
  "split_acc [] cur = (if cur = [] then [] else [cur])"
| "split_acc (c # cs) cur =
     (if is_space c then (if cur = [] then split_acc cs [] else cur # split_acc cs [])
      else split_acc cs (cur @ [c]))"

definition py_split :: "string \<Rightarrow> string list" where
  "py_split s = split_acc s []"

record Enclitic =
  e_text :: string
  e_position :: "string list"
  e_senses :: "string list"
  e_id :: int

definition Enclitic_init :: "Addon \<Rightarrow> Enclitic" where
  "Enclitic_init enclitic =
     \<lparr>e_text = addon_orth enclitic, e_position = py_split (addon_pos enclitic),
      e_senses = addon_senses enclitic,
      e_id = (case addon_aid enclitic of None \<Rightarrow> 0 | Some k \<Rightarrow> k)\<rparr>"

record Analysis =
  a_lexeme :: Lexeme
  a_root :: string
  a_inflections :: "Inflection list"
  a_enclitic :: "Enclitic option"

definition Analysis_init :: "Lexeme \<Rightarrow> Inflection list \<Rightarrow> Enclitic option \<Rightarrow> Analysis" where
  "Analysis_init lexeme inflections enclitic =
     \<lparr>a_lexeme = lexeme, a_root = [], a_inflections = inflections, a_enclitic = enclitic\<rparr>"

text \<open>\<open>Analysis.lookup_stem\<close>: the index is not guarded, the empty slot is.\<close>

definition Analysis_lookup_stem :: "wordlist \<Rightarrow> Analysis \<Rightarrow> error + Analysis" where
  "Analysis_lookup_stem wl a =
     bindE (py_getitem wl (l_id (a_lexeme a))) (\<lambda>dict_word.
       case dict_word of
         None \<Rightarrow> Inr a
       | Some w \<Rightarrow>
           Inr (a\<lparr>a_lexeme := (a_lexeme a)\<lparr>l_roots := entry_parts w, l_senses := entry_senses w\<rparr>\<rparr>))"

section \<open>parser.py: the analysis of one form\<close>

text \<open>\<open>Form.analyses\<close> is a dictionary from headword ids to analyses.\<close>

record Form =
  f_text :: string
  f_analyses :: "(int \<times> Analysis) list"
  f_enclitic :: "Enclitic option"

definition Form_init :: "string \<Rightarrow> Enclitic option \<Rightarrow> Form" where
  "Form_init t enclitic = \<lparr>f_text = t, f_analyses = [], f_enclitic = enclitic\<rparr>"

text \<open>\<open>Form.analyse_unique\<close>: \<open>self.analyses[0]\<close> raises when the key 0 is missing.\<close>

definition Form_analyse_unique :: "modules \<Rightarrow> string Unique \<Rightarrow> Form \<Rightarrow> error + Form" where
  "Form_analyse_unique E unique_form form =
     (if f_analyses form \<noteq> [] then
        (case map_of (f_analyses form) 0 of
           None \<Rightarrow> Inl KeyError
         | Some a \<Rightarrow>
             bindE (UniqueInflection_init E unique_form) (\<lambda>ui.
               Inr (form\<lparr>f_analyses :=
                      od_update (f_analyses form) 0 (a\<lparr>a_inflections := a_inflections a @ [ui]\<rparr>)\<rparr>)))
      else
        bindE (UniqueLexeme_init E unique_form) (\<lambda>ul.
        bindE (UniqueInflection_init E unique_form) (\<lambda>ui.
          Inr (form\<lparr>f_analyses := [(0, Analysis_init ul [ui] None)]\<rparr>))))"

text \<open>
  The candidate endings of \<open>Form.analyse\<close>. The word types of the stems spelled like
  the text are a Python set, iterated in the order the interpreter gives. A word type
  without a key in \<open>empty\<close> raises.
\<close>

definition empty_endings ::
  "modules \<Rightarrow> string DataLayer \<Rightarrow> string \<Rightarrow> error + string Inflect list" where
  "empty_endings E data t =
     (if t \<in> wordkeys data then
        (case stems data t of
           None \<Rightarrow> Inr []
         | Some stem_list \<Rightarrow>
             foldE (\<lambda>wordtype v.
                      case empty data wordtype of
                        None \<Rightarrow> Inl KeyError
                      | Some infls \<Rightarrow> Inr (v @ infls))
               (set_iteration E (map stem_pos stem_list)) [])
      else Inr [])"

definition suffix_endings ::
  "string DataLayer \<Rightarrow> string \<Rightarrow> string Inflect list \<Rightarrow> string Inflect list" where
  "suffix_endings data t v0 =
     fold (\<lambda>inflect_length v.
             let end_of_word = drop (length t - inflect_length) t
             in case inflects data inflect_length of
                  None \<Rightarrow> v
                | Some m \<Rightarrow> (case m end_of_word of None \<Rightarrow> v | Some infl \<Rightarrow> v @ infl))
       [1 ..< min 8 (length t)] v0"

definition Form_viable_inflections ::
  "modules \<Rightarrow> string DataLayer \<Rightarrow> string \<Rightarrow> error + string Inflect list" where
  "Form_viable_inflections E data t =
     bindE (empty_endings E data t) (\<lambda>v0. Inr (suffix_endings data t v0))"

text \<open>\<open>Form.match_stems_inflections\<close>: the body for one ending and one stem.\<close>

definition match_candidate ::
  "modules \<Rightarrow> string Inflect \<Rightarrow> string Stem \<Rightarrow> (int \<times> Analysis) list
     \<Rightarrow> error + (int \<times> Analysis) list" where
  "match_candidate E infl_cand stem_cand matched_stems =
     bindE (Matcher_check E stem_cand infl_cand) (\<lambda>ok.
       if ok then
         bindE (Inflection_init E infl_cand stem_cand) (\<lambda>inflection.
           case map_of matched_stems (stem_wid stem_cand) of
             Some a \<Rightarrow>
               Inr (if list_ex (Inflection_eq inflection) (a_inflections a) then matched_stems
                    else od_update matched_stems (stem_wid stem_cand)
                           (a\<lparr>a_inflections := a_inflections a @ [inflection]\<rparr>))
           | None \<Rightarrow>
               bindE (Lexeme_init E stem_cand) (\<lambda>lexeme.
                 Inr (od_update matched_stems (stem_wid stem_cand)
                        (Analysis_init lexeme [inflection] None))))
       else Inr matched_stems)"

definition stem_lemma :: "string \<Rightarrow> string Inflect \<Rightarrow> string" where
  "stem_lemma t infl_cand =
     (if infl_ending infl_cand \<noteq> [] then take (length t - length (infl_ending infl_cand)) t
      else t)"

definition match_ending ::
  "modules \<Rightarrow> string DataLayer \<Rightarrow> string \<Rightarrow> string Inflect \<Rightarrow> (int \<times> Analysis) list
     \<Rightarrow> error + (int \<times> Analysis) list" where
  "match_ending E data t infl_cand matched_stems =
     (case stems data (stem_lemma t infl_cand) of
        None \<Rightarrow> Inr matched_stems
      | Some stem_list \<Rightarrow> foldE (match_candidate E infl_cand) stem_list matched_stems)"

definition Form_match_stems_inflections ::
  "modules \<Rightarrow> string DataLayer \<Rightarrow> string \<Rightarrow> string Inflect list \<Rightarrow> error + (int \<times> Analysis) list" where
  "Form_match_stems_inflections E data t viable_inflections =
     foldE (match_ending E data t) viable_inflections []"

text \<open>A loop that replaces each element of a list by a result that may raise.\<close>

fun mapE :: "('a \<Rightarrow> error + 'b) \<Rightarrow> 'a list \<Rightarrow> error + 'b list" where
  "mapE f [] = Inr []"
| "mapE f (x # xs) =
     (case f x of Inl e \<Rightarrow> Inl e
      | Inr y \<Rightarrow> (case mapE f xs of Inl e \<Rightarrow> Inl e | Inr ys \<Rightarrow> Inr (y # ys)))"

text \<open>\<open>dict.update\<close>: the keys of the argument are stored one after the other.\<close>

definition od_update_all :: "('k \<times> 'v) list \<Rightarrow> ('k \<times> 'v) list \<Rightarrow> ('k \<times> 'v) list" where
  "od_update_all d new = fold (\<lambda>(k, v) acc. od_update acc k v) new d"

definition Form_analyse :: "modules \<Rightarrow> string DataLayer \<Rightarrow> Form \<Rightarrow> error + Form" where
  "Form_analyse E data form =
     bindE (Form_viable_inflections E data (f_text form)) (\<lambda>viable_inflections.
     bindE (Form_match_stems_inflections E data (f_text form) viable_inflections) (\<lambda>analyses.
     bindE (mapE (\<lambda>(k, analysis).
                    bindE (Analysis_lookup_stem (wordlist data)
                             (analysis\<lparr>a_enclitic := f_enclitic form\<rparr>))
                      (\<lambda>a. Inr (k, a)))
              analyses) (\<lambda>analyses'.
       Inr (if f_analyses form \<noteq> []
            then form\<lparr>f_analyses := od_update_all (f_analyses form) analyses'\<rparr>
            else form\<lparr>f_analyses := analyses'\<rparr>))))"

text \<open>\<open>Form.filter_analysis\<close>: \<open>position[0]\<close> raises for an enclitic without position.\<close>

definition filter_analysis :: "int \<times> Analysis \<Rightarrow> error + bool" where
  "filter_analysis analysis =
     (case a_enclitic (snd analysis) of
        Some enclitic \<Rightarrow>
          bindE (py_getitem (e_position enclitic) 0) (\<lambda>p0.
            if p0 = ''X'' \<or> p0 = ''PACK'' then Inr True
            else bindE (py_getitem (e_position enclitic) 0) (\<lambda>p1.
                   Inr (p1 = member_name (l_wordType (a_lexeme (snd analysis))))))
      | None \<Rightarrow>
          Inr (l_roots (a_lexeme (snd analysis)) \<noteq> [] \<or> l_unique (a_lexeme (snd analysis))))"

fun filterE :: "('a \<Rightarrow> error + bool) \<Rightarrow> 'a list \<Rightarrow> error + 'a list" where
  "filterE f [] = Inr []"
| "filterE f (x # xs) =
     (case f x of Inl e \<Rightarrow> Inl e
      | Inr keep \<Rightarrow>
          (case filterE f xs of Inl e \<Rightarrow> Inl e
           | Inr ys \<Rightarrow> Inr (if keep then x # ys else ys)))"

definition Form_filter_good_analyses :: "Form \<Rightarrow> error + Form" where
  "Form_filter_good_analyses form =
     bindE (filterE filter_analysis (f_analyses form)) (\<lambda>kept. Inr (form\<lparr>f_analyses := kept\<rparr>))"

section \<open>parser.py: the word and the entry point\<close>

record Word =
  w_text :: string
  w_forms :: "Form list"

text \<open>
  \<open>str.lower\<close> below 256: the capitals are those of ASCII and the code points 192 to
  222 without the sign 215, and each has its small letter 32 places further.
\<close>

definition lower_char :: "char \<Rightarrow> char" where
  "lower_char c =
     (let k = (of_char c :: nat)
      in if (65 \<le> k \<and> k \<le> 90) \<or> (192 \<le> k \<and> k \<le> 214) \<or> (216 \<le> k \<and> k \<le> 222)
         then char_of (k + 32) else c)"

definition Word_init :: "string \<Rightarrow> Word" where
  "Word_init t = \<lparr>w_text = map lower_char t, w_forms = []\<rparr>"

text \<open>\<open>Word.find_enclitic\<close>: every matching affix that leaves a base gives a form.\<close>

definition find_enclitic :: "string DataLayer \<Rightarrow> string \<Rightarrow> string \<Rightarrow> Form list" where
  "find_enclitic data t list_name =
     (case addons data list_name of
        None \<Rightarrow> []
      | Some affixes \<Rightarrow>
          fold (\<lambda>affix result.
                  if endswith t (addon_orth affix) then
                    (let b = sub_suffix (addon_orth affix) t
                     in if b \<noteq> [] then result @ [Form_init b (Some (Enclitic_init affix))]
                        else result)
                  else result)
            affixes [])"

definition Word_split_form_enclitic :: "string DataLayer \<Rightarrow> Word \<Rightarrow> Word" where
  "Word_split_form_enclitic data w =
     (let result = [Form_init (w_text w) None] @ find_enclitic data (w_text w) ''tackons''
      in w\<lparr>w_forms :=
            (if startswith (w_text w) ''qu''
             then result @ find_enclitic data (w_text w) ''packons''
             else result @ find_enclitic data (w_text w) ''not_packons'')\<rparr>)"

text \<open>The body of the loop of \<open>Word.analyse\<close> for one form.\<close>

definition analyse_form :: "modules \<Rightarrow> string DataLayer \<Rightarrow> bool \<Rightarrow> Form \<Rightarrow> error + Form" where
  "analyse_form E data apply_filter form =
     bindE (case uniques data (f_text form) of
              None \<Rightarrow> Inr form
            | Some unique_forms \<Rightarrow> foldE (Form_analyse_unique E) unique_forms form) (\<lambda>f1.
     bindE (Form_analyse E data f1) (\<lambda>f2.
       if apply_filter then Form_filter_good_analyses f2 else Inr f2))"

definition Word_filter_good_forms :: "Word \<Rightarrow> Word" where
  "Word_filter_good_forms w = w\<lparr>w_forms := filter (\<lambda>form. f_analyses form \<noteq> []) (w_forms w)\<rparr>"

definition Word_analyse :: "modules \<Rightarrow> string DataLayer \<Rightarrow> bool \<Rightarrow> Word \<Rightarrow> error + Word" where
  "Word_analyse E data apply_filter w =
     bindE (mapE (analyse_form E data apply_filter) (w_forms w)) (\<lambda>forms.
       Inr (if apply_filter then Word_filter_good_forms (w\<lparr>w_forms := forms\<rparr>)
            else w\<lparr>w_forms := forms\<rparr>))"

definition Word_get_analyses :: "Word \<Rightarrow> Analysis list" where
  "Word_get_analyses w = concat (map (\<lambda>form. od_values (f_analyses form)) (w_forms w))"

text \<open>\<open>Parser.parse\<close> of \<open>parser.py\<close>.\<close>

definition Parser_parse_word :: "modules \<Rightarrow> string DataLayer \<Rightarrow> string \<Rightarrow> bool \<Rightarrow> error + Word" where
  "Parser_parse_word E data t apply_filters =
     (if \<not> isalpha t then Inl WordsException
      else Word_analyse E data apply_filters (Word_split_form_enclitic data (Word_init t)))"

section \<open>Invariants of the assembler of parser.py\<close>









section \<open>The candidate endings, in the words of the specification\<close>




section \<open>Sample tables\<close>

text \<open>
  A small dictionary in the format of \<open>parse.py\<close>: the verb \<open>amo\<close> with its four
  principal parts, two of its stems, and endings whose form is the encoded string.
\<close>

definition amo_entry :: DictEntry where
  "amo_entry = \<lparr>entry_id = 0, entry_pos = ''V'',
                 entry_parts = [''am'', ''am'', ''amav'', ''amat''], entry_senses = [''love'']\<rparr>"

definition stem_am :: "char Stem" where
  "stem_am = \<lparr>stem_orth = ''am'', stem_pos = ''V'', stem_form = ''X'', stem_n = [1, 1], stem_wid = 0,
      stem_props = []\<rparr>"

definition stem_amat :: "char Stem" where
  "stem_amat = \<lparr>stem_orth = ''amat'', stem_pos = ''V'', stem_form = ''X'', stem_n = [1, 1], stem_wid = 0,
      stem_props = []\<rparr>"

definition infl_us_perf :: "char Inflect" where
  "infl_us_perf = \<lparr>infl_ending = ''us'', infl_pos = ''VPAR'', infl_n = [1, 0],
                    infl_form = ''NOM S M PERF PASSIVE PPL'', infl_iid = 1\<rparr>"

definition equus_entry :: DictEntry where
  "equus_entry = \<lparr>entry_id = 1, entry_pos = ''N'',
                   entry_parts = [''equ'', ''equ''], entry_senses = [''horse'']\<rparr>"

definition stem_equ :: "char Stem" where
  "stem_equ = \<lparr>stem_orth = ''equ'', stem_pos = ''N'', stem_form = ''M'', stem_n = [2, 1], stem_wid = 1,
      stem_props = []\<rparr>"

definition infl_e_voc :: "char Inflect" where
  "infl_e_voc = \<lparr>infl_ending = ''e'', infl_pos = ''N'', infl_n = [2, 1],
                  infl_form = ''VOC S M'', infl_iid = 2\<rparr>"

definition infl_atus_pres :: "char Inflect" where
  "infl_atus_pres = \<lparr>infl_ending = ''atus'', infl_pos = ''VPAR'', infl_n = [1, 0],
                      infl_form = ''NOM S M PRES ACTIVE PPL'', infl_iid = 3\<rparr>"

definition addon_que :: Addon where
  "addon_que = \<lparr>addon_orth = ''que'', addon_pos = ''X'', addon_senses = [''and''],
      addon_aid = None\<rparr>"

definition addon_re :: Addon where
  "addon_re = \<lparr>addon_orth = ''re'', addon_pos = ''X'', addon_senses = [''again''],
      addon_aid = None\<rparr>"

definition unique_quoque :: "char Unique" where
  "unique_quoque = \<lparr>uq_orth = ''quoque'', uq_pos = ''ADV'', uq_n = None,
                     uq_form = ''POS'', uq_senses = [''also'']\<rparr>"

definition sample_parser :: "char Parser" where
  "sample_parser =
     \<lparr>wordlist = [Some amo_entry, Some equus_entry],
      wordkeys = {},
      stems = [''am'' \<mapsto> [stem_am], ''amat'' \<mapsto> [stem_amat], ''equ'' \<mapsto> [stem_equ]],
      uniques = [''quoque'' \<mapsto> [unique_quoque]],
      inflects = [1 \<mapsto> [''e'' \<mapsto> [infl_e_voc]], 2 \<mapsto> [''us'' \<mapsto> [infl_us_perf]],
                  4 \<mapsto> [''atus'' \<mapsto> [infl_atus_pres]]],
      addons = [''tackons'' \<mapsto> [addon_que], ''prefixes'' \<mapsto> [addon_re]]\<rparr>"

definition infl_is_v :: "char Inflect" where
  "infl_is_v = \<lparr>infl_ending = ''is'', infl_pos = ''V'', infl_n = [1, 1],
                 infl_form = ''PRES ACTIVE IND 2 S'', infl_iid = 4\<rparr>"

definition amo_result :: stem_result where
  "amo_result = \<lparr>res_w = amo_entry, res_enclitic = None,
                  res_stems = [\<lparr>ms_st = stem_amat, ms_infls = [infl_us_perf], ms_encl = None\<rparr>]\<rparr>"

text \<open>
  The same words in the format of \<open>parser.py\<close>: forms are lists of feature names. The
  sample matcher accepts a stem and an ending of the same part of speech and category.
  The word list has an empty slot at index 2.
\<close>

definition sample_modules :: modules where
  "sample_modules =
     \<lparr>get_enum_value = (\<lambda>enum_name v. Inr (EnumMember enum_name v)),
      Gender_names = [''M'', ''F'', ''N'', ''C'', ''X''],
      Matcher_check = (\<lambda>stem infl. Inr (stem_pos stem = infl_pos infl \<and> stem_n stem = infl_n infl)),
      set_iteration = remdups\<rparr>"

definition nstem_equ :: "string Stem" where
  "nstem_equ = \<lparr>stem_orth = ''equ'', stem_pos = ''N'', stem_form = [''M'', ''T''],
                 stem_n = [2, 1], stem_wid = 1, stem_props = []\<rparr>"

definition nstem_eque :: "string Stem" where
  "nstem_eque = \<lparr>stem_orth = ''eque'', stem_pos = ''ADV'', stem_form = [''POS''],
                  stem_n = [], stem_wid = 2, stem_props = []\<rparr>"

definition ninfl_e_voc :: "string Inflect" where
  "ninfl_e_voc = \<lparr>infl_ending = ''e'', infl_pos = ''N'', infl_n = [2, 1],
                   infl_form = [''VOC'', ''S'', ''X''], infl_iid = 2\<rparr>"

definition ninfl_e_voc_again :: "string Inflect" where
  "ninfl_e_voc_again = \<lparr>infl_ending = ''e'', infl_pos = ''N'', infl_n = [2, 1],
                         infl_form = [''VOC'', ''S'', ''X''], infl_iid = 7\<rparr>"

definition ninfl_adv_empty :: "string Inflect" where
  "ninfl_adv_empty = \<lparr>infl_ending = [], infl_pos = ''ADV'', infl_n = [],
                       infl_form = [''POS''], infl_iid = 5\<rparr>"

definition nunique_quoque :: "string Unique" where
  "nunique_quoque = \<lparr>uq_orth = ''quoque'', uq_pos = ''ADV'', uq_n = None,
                      uq_form = [''POS''], uq_senses = [''also'']\<rparr>"

definition sample_data :: "string DataLayer" where
  "sample_data =
     \<lparr>wordlist = [Some amo_entry, Some equus_entry, None],
      wordkeys = {''eque''},
      stems = [''equ'' \<mapsto> [nstem_equ], ''eque'' \<mapsto> [nstem_eque]],
      uniques = [''quoque'' \<mapsto> [nunique_quoque]],
      inflects = [1 \<mapsto> [''e'' \<mapsto> [ninfl_e_voc, ninfl_e_voc_again]]],
      addons = [''tackons'' \<mapsto> [addon_que]],
      empty = [''N'' \<mapsto> [], ''ADV'' \<mapsto> [ninfl_adv_empty]]\<rparr>"


text \<open>A stem of \<open>amo\<close> that is none of its principal parts, and an ending for it.\<close>

definition stem_ama :: "char Stem" where
  "stem_ama = \<lparr>stem_orth = ''ama'', stem_pos = ''V'', stem_form = ''X'', stem_n = [1, 1],
                stem_wid = 0, stem_props = []\<rparr>"

definition infl_t_v :: "char Inflect" where
  "infl_t_v = \<lparr>infl_ending = ''t'', infl_pos = ''V'', infl_n = [1, 1],
                infl_form = ''PRES ACTIVE IND 3 S'', infl_iid = 6\<rparr>"

definition sample_parser_ama :: "char Parser" where
  "sample_parser_ama =
     sample_parser\<lparr>stems := [''ama'' \<mapsto> [stem_ama]], inflects := [1 \<mapsto> [''t'' \<mapsto> [infl_t_v]]]\<rparr>"

definition equus_result :: stem_result where
  "equus_result = \<lparr>res_w = equus_entry, res_enclitic = None,
                    res_stems = [\<lparr>ms_st = stem_equ, ms_infls = [infl_e_voc], ms_encl = None\<rparr>]\<rparr>"

text \<open>Tables with two prefixes and a suffix, and a table whose only ending is a verb's.\<close>

definition addon_ab :: Addon where
  "addon_ab = \<lparr>addon_orth = ''ab'', addon_pos = ''X'', addon_senses = [''away''],
      addon_aid = None\<rparr>"

definition addon_ce :: Addon where
  "addon_ce = \<lparr>addon_orth = ''ce'', addon_pos = ''X'', addon_senses = [''here''],
      addon_aid = None\<rparr>"

definition sample_parser_affixes :: "char Parser" where
  "sample_parser_affixes =
     sample_parser\<lparr>addons := [''prefixes'' \<mapsto> [addon_ab, addon_re], ''suffixes'' \<mapsto> [addon_ce]]\<rparr>"

definition sample_parser_is :: "char Parser" where
  "sample_parser_is = sample_parser\<lparr>inflects := [2 \<mapsto> [''is'' \<mapsto> [infl_is_v]]]\<rparr>"








section \<open>Properties of parse.py\<close>

lemma py_getitem_last: "py_getitem xs (- 1) = (if xs = [] then Inl IndexError else Inr (last xs))"
proof (cases xs rule: rev_cases)
  case Nil
  then show ?thesis by (simp add: py_getitem_def)
next
  case (snoc ys y)
  then show ?thesis by (simp add: py_getitem_def nth_append)
qed

lemma py_getitem_first: "py_getitem xs 0 = (if xs = [] then Inl IndexError else Inr (hd xs))"
  by (cases xs) (simp_all add: py_getitem_def)

text \<open>
  C1. When the parts of speech of the ending and the stem differ, the check is true only
  for a VPAR ending on a V stem whose entry is found and not empty, and then exactly when
  the stem's spelling is the entry's last principal part (ending form slice 8..12 equal
  to PERF) or its first principal part (otherwise); a failed look-up (index out of range,
  empty slot) gives false, and every other mismatch gives false.
\<close>

theorem check_match_pos_differ:
  assumes "infl_pos infl \<noteq> stem_pos stem"
  shows "(check_match wl stem infl = Inr True \<longrightarrow>
            infl_pos infl = ''VPAR'' \<and> stem_pos stem = ''V'' \<and>
            (\<exists>wrd. py_getitem wl (stem_wid stem) = Inr (Some wrd) \<and> entry_parts wrd \<noteq> [] \<and>
               stem_orth stem =
                 (if py_slice (infl_form infl) 8 12 = ''PERF'' then last (entry_parts wrd)
                  else hd (entry_parts wrd))))
       \<and> (infl_pos infl = ''VPAR'' \<and> stem_pos stem = ''V'' \<longrightarrow>
            (\<forall>wrd. py_getitem wl (stem_wid stem) = Inr (Some wrd) \<and> entry_parts wrd \<noteq> [] \<longrightarrow>
               check_match wl stem infl =
                 Inr (stem_orth stem =
                   (if py_slice (infl_form infl) 8 12 = ''PERF'' then last (entry_parts wrd)
                    else hd (entry_parts wrd)))))
       \<and> (py_getitem wl (stem_wid stem) = Inl IndexError \<or>
          py_getitem wl (stem_wid stem) = Inr None \<longrightarrow> check_match wl stem infl = Inr False)
       \<and> (\<not> (infl_pos infl = ''VPAR'' \<and> stem_pos stem = ''V'') \<longrightarrow>
            check_match wl stem infl = Inr False)"
  using assms
  by (auto simp: check_match_def bindE_def py_getitem_last py_getitem_first
           split: sum.splits option.splits)

theorem check_match_pos_differ_witness:
  "infl_pos infl_us_perf \<noteq> stem_pos stem_amat \<and>
   check_match [Some amo_entry] stem_amat infl_us_perf = Inr True"
proof -
  have h: "infl_pos infl_us_perf \<noteq> stem_pos stem_amat"
    by (simp add: infl_us_perf_def stem_amat_def)
  have g: "py_getitem [Some amo_entry] (stem_wid stem_amat) = Inr (Some amo_entry)"
    by (simp add: py_getitem_def stem_amat_def)
  have k: "entry_parts amo_entry \<noteq> []"
    by (simp add: amo_entry_def)
  have "check_match [Some amo_entry] stem_amat infl_us_perf =
          Inr (stem_orth stem_amat =
            (if py_slice (infl_form infl_us_perf) 8 12 = ''PERF'' then last (entry_parts amo_entry)
             else hd (entry_parts amo_entry)))"
    using check_match_pos_differ [OF h, of "[Some amo_entry]"] g k
    by (simp add: infl_us_perf_def stem_amat_def)
  then show ?thesis
    using h by (simp add: infl_us_perf_def stem_amat_def amo_entry_def py_slice_def)
qed

lemma first_prefix_Some:
  "first_prefix ps s = Some a \<Longrightarrow> startswith s (addon_orth a) \<and> a \<in> set ps"
  by (induction ps) (auto split: if_splits)

lemma first_suffix_Some:
  "first_suffix ps s = Some a \<Longrightarrow> endswith s (addon_orth a) \<and> a \<in> set ps"
  by (induction ps) (auto split: if_splits)

lemma first_prefix_split:
  "first_prefix ps s = Some a \<Longrightarrow>
     \<exists>xs ys. ps = xs @ a # ys \<and> (\<forall>b \<in> set xs. \<not> startswith s (addon_orth b))"
proof (induction ps)
  case Nil
  then show ?case by simp
next
  case (Cons x ps)
  show ?case
  proof (cases "startswith s (addon_orth x)")
    case True
    with Cons.prems have "x = a" by simp
    then have "x # ps = [] @ a # ps \<and> (\<forall>b \<in> set []. \<not> startswith s (addon_orth b))" by simp
    then show ?thesis by blast
  next
    case False
    with Cons obtain xs ys where "ps = xs @ a # ys" "\<forall>b \<in> set xs. \<not> startswith s (addon_orth b)"
      by auto
    with False have "x # ps = (x # xs) @ a # ys \<and> (\<forall>b \<in> set (x # xs). \<not> startswith s (addon_orth b))"
      by simp
    then show ?thesis by blast
  qed
qed

lemma first_suffix_split:
  "first_suffix ps s = Some a \<Longrightarrow>
     \<exists>xs ys. ps = xs @ a # ys \<and> (\<forall>b \<in> set xs. \<not> endswith s (addon_orth b))"
proof (induction ps)
  case Nil
  then show ?case by simp
next
  case (Cons x ps)
  show ?case
  proof (cases "endswith s (addon_orth x)")
    case True
    with Cons.prems have "x = a" by simp
    then have "x # ps = [] @ a # ps \<and> (\<forall>b \<in> set []. \<not> endswith s (addon_orth b))" by simp
    then show ?thesis by blast
  next
    case False
    with Cons obtain xs ys where "ps = xs @ a # ys" "\<forall>b \<in> set xs. \<not> endswith s (addon_orth b)"
      by auto
    with False have "x # ps = (x # xs) @ a # ys \<and> (\<forall>b \<in> set (x # xs). \<not> endswith s (addon_orth b))"
      by simp
    then show ?thesis by blast
  qed
qed

lemma sub_prefix_startswith: "startswith s t \<Longrightarrow> s = t @ sub_prefix t s"
  by (simp add: sub_prefix_def startswith_def) (metis append_take_drop_id)

lemma sub_suffix_endswith: "endswith s t \<Longrightarrow> s = sub_suffix t s @ t"
  by (simp add: sub_suffix_def endswith_def) (metis append_take_drop_id)

lemma analyze_forms_reduced: "analyze_forms p w True = analyze_direct p w"
  by (simp split: sum.splits)

lemma analyze_forms_fresh:
  "analyze_forms p w False =
     (case analyze_direct p w of Inl e \<Rightarrow> Inl e
      | Inr forms \<Rightarrow> if forms = [] then reduce p w else Inr forms)"
  by (simp split: sum.splits)

lemma reduce_once:
  "reduce p w =
     (case analyze_direct p (w\<lparr>base := reduce_base p (base w)\<rparr>) of Inl e \<Rightarrow> Inl e
      | Inr out \<Rightarrow> if out \<noteq> [] \<and> list_all (\<lambda>r. res_stems r = []) out then Inr [] else Inr out)"
  by (auto simp: list_all_iff split: sum.splits)

lemma remove_loop:
  "\<forall>x \<in> set pre. infl_pos x \<noteq> t \<Longrightarrow>
   foldE (\<lambda>infl xs. if infl_pos infl = t then py_remove infl xs else Inr xs) cs (pre @ cs) =
     Inr (pre @ filter (\<lambda>i. infl_pos i \<noteq> t) cs)"
proof (induction cs arbitrary: pre)
  case Nil
  then show ?case by simp
next
  case (Cons c cs)
  show ?case
  proof (cases "infl_pos c = t")
    case True
    with Cons.prems have "c \<notin> set pre" by auto
    then have "remove1 c (pre @ c # cs) = pre @ cs" by (simp add: remove1_append)
    with True Cons.IH [OF Cons.prems] show ?thesis by (simp add: py_remove_def)
  next
    case False
    with Cons.prems have "\<forall>x \<in> set (pre @ [c]). infl_pos x \<noteq> t" by auto
    from Cons.IH [OF this] False show ?thesis by simp
  qed
qed

lemma remove_extra_infls_filter:
  "remove_extra_infls stem t = Inr (stem\<lparr>ms_infls := filter (\<lambda>i. infl_pos i \<noteq> t) (ms_infls stem)\<rparr>)"
  using remove_loop [of "[]" t "ms_infls stem"] by (simp add: remove_extra_infls_def bindE_def)

lemma py_index_Inr:
  "py_index xs x = Inr k \<Longrightarrow> k < length xs \<and> xs ! k = x \<and> (\<forall>j<k. xs ! j \<noteq> x)"
proof (induction xs arbitrary: k)
  case Nil
  then show ?case by simp
next
  case (Cons y ys)
  show ?case
  proof (cases "y = x")
    case True
    with Cons.prems show ?thesis by simp
  next
    case False
    with Cons.prems obtain k' where k': "py_index ys x = Inr k'" "k = Suc k'"
      by (auto split: sum.splits)
    from Cons.IH [OF k'(1)] False k'(2) show ?thesis
      by (auto simp: nth_Cons split: nat.splits)
  qed
qed

lemma py_index_mem: "x \<in> set xs \<Longrightarrow> \<exists>k. py_index xs x = Inr k"
  by (induction xs) auto

lemma py_index_absent: "x \<notin> set xs \<Longrightarrow> py_index xs x = Inl ValueError"
  by (induction xs) auto

lemma merge_result_None:
  "merge_result results dict_word stem = None \<longleftrightarrow>
     (\<forall>r \<in> set results. entry_id (res_w r) \<noteq> entry_id dict_word)"
  by (induction results) auto

lemma merge_result_Some:
  "merge_result results dict_word stem = Some rs \<Longrightarrow>
     \<exists>r \<in> set rs. entry_id (res_w r) = entry_id dict_word \<and> stem \<in> set (res_stems r)"
proof (induction results arbitrary: rs)
  case Nil
  then show ?case by simp
next
  case (Cons word results)
  show ?case
  proof (cases "entry_id dict_word = entry_id (res_w word)")
    case True
    with Cons.prems show ?thesis by (auto split: if_splits)
  next
    case False
    with Cons.prems obtain rs' where "merge_result results dict_word stem = Some rs'" "rs = word # rs'"
      by auto
    with Cons.IH show ?thesis by auto
  qed
qed

lemma merge_result_exact:
  "merge_result results dict_word stem = Some rs \<Longrightarrow>
     \<exists>pre r post. results = pre @ r # post \<and>
        (\<forall>x \<in> set pre. entry_id (res_w x) \<noteq> entry_id dict_word) \<and>
        entry_id (res_w r) = entry_id dict_word \<and>
        rs = pre @ (if stem \<in> set (res_stems r) then r
                    else r\<lparr>res_stems := res_stems r @ [stem]\<rparr>) # post"
proof (induction results arbitrary: rs)
  case Nil
  then show ?case by simp
next
  case (Cons word results)
  show ?case
  proof (cases "entry_id dict_word = entry_id (res_w word)")
    case True
    with Cons.prems have
      "rs = [] @ (if stem \<in> set (res_stems word) then word
                  else word\<lparr>res_stems := res_stems word @ [stem]\<rparr>) # results"
      by simp
    with True show ?thesis by (intro exI [of _ "[]"] exI [of _ word] exI [of _ results]) simp
  next
    case False
    with Cons.prems obtain rs' where rs': "merge_result results dict_word stem = Some rs'"
      "rs = word # rs'" by auto
    from Cons.IH [OF rs'(1)] obtain pre r post where
      p: "results = pre @ r # post"
         "\<forall>x \<in> set pre. entry_id (res_w x) \<noteq> entry_id dict_word"
         "entry_id (res_w r) = entry_id dict_word"
         "rs' = pre @ (if stem \<in> set (res_stems r) then r
                    else r\<lparr>res_stems := res_stems r @ [stem]\<rparr>) # post"
      by blast
    with False rs'(2) show ?thesis
      by (intro exI [of _ "word # pre"] exI [of _ r] exI [of _ post]) auto
  qed
qed

text \<open>
  C4, as the code has it. A matched stem whose headword is a verb entry not yet among
  the results, and whose spelling is one of the entry's principal parts, enters the
  results with its endings filtered: without the V endings when the first position of the
  spelling in the list is 3, without the VPAR endings otherwise. A matched stem whose
  headword is among the results already is appended, with its endings as they are, to the
  stems of the first result of that headword, unless an equal stem is there; nothing else
  in the results changes.
\<close>

theorem lookup_stems_disambiguates:
  assumes "py_getitem wl (stem_wid (ms_st stem)) = Inr (Some dict_word)"
    and "entry_pos dict_word = ''V''"
  shows "((\<forall>r \<in> set results. entry_id (res_w r) \<noteq> entry_id dict_word) \<and>
          stem_orth (ms_st stem) \<in> set (entry_parts dict_word) \<longrightarrow>
            (\<exists>k. py_index (entry_parts dict_word) (stem_orth (ms_st stem)) = Inr k \<and>
                 k < length (entry_parts dict_word) \<and>
                 entry_parts dict_word ! k = stem_orth (ms_st stem) \<and>
                 (\<forall>j<k. entry_parts dict_word ! j \<noteq> stem_orth (ms_st stem)) \<and>
                 lookup_stem_step wl stem results =
                   Inr (results @
                     [\<lparr>res_w = dict_word, res_enclitic = ms_encl stem,
                       res_stems =
                         [stem\<lparr>ms_infls :=
                            filter (\<lambda>i. infl_pos i \<noteq> (if k = 3 then ''V'' else ''VPAR''))
                              (ms_infls stem)\<rparr>]\<rparr>])))
       \<and> (\<not> (\<forall>r \<in> set results. entry_id (res_w r) \<noteq> entry_id dict_word) \<longrightarrow>
            (\<exists>pre r post. results = pre @ r # post \<and>
                  (\<forall>x \<in> set pre. entry_id (res_w x) \<noteq> entry_id dict_word) \<and>
                  entry_id (res_w r) = entry_id dict_word \<and>
                  lookup_stem_step wl stem results =
                    Inr (pre @ (if stem \<in> set (res_stems r) then r
                                else r\<lparr>res_stems := res_stems r @ [stem]\<rparr>) # post)))"
proof (intro conjI impI)
  assume a: "(\<forall>r \<in> set results. entry_id (res_w r) \<noteq> entry_id dict_word) \<and>
          stem_orth (ms_st stem) \<in> set (entry_parts dict_word)"
  then obtain k where k: "py_index (entry_parts dict_word) (stem_orth (ms_st stem)) = Inr k"
    using py_index_mem by fastforce
  from a have m: "merge_result results dict_word stem = None"
    by (simp add: merge_result_None)
  have "lookup_stem_step wl stem results =
          Inr (results @
            [\<lparr>res_w = dict_word, res_enclitic = ms_encl stem,
              res_stems =
                [stem\<lparr>ms_infls :=
                   filter (\<lambda>i. infl_pos i \<noteq> (if k = 3 then ''V'' else ''VPAR''))
                     (ms_infls stem)\<rparr>]\<rparr>])"
    using assms k m
    by (simp add: lookup_stem_step_def disambiguate_def bindE_def remove_extra_infls_filter)
  with k py_index_Inr [OF k]
  show "\<exists>k. py_index (entry_parts dict_word) (stem_orth (ms_st stem)) = Inr k \<and>
                 k < length (entry_parts dict_word) \<and>
                 entry_parts dict_word ! k = stem_orth (ms_st stem) \<and>
                 (\<forall>j<k. entry_parts dict_word ! j \<noteq> stem_orth (ms_st stem)) \<and>
                 lookup_stem_step wl stem results =
                   Inr (results @
                     [\<lparr>res_w = dict_word, res_enclitic = ms_encl stem,
                       res_stems =
                         [stem\<lparr>ms_infls :=
                            filter (\<lambda>i. infl_pos i \<noteq> (if k = 3 then ''V'' else ''VPAR''))
                              (ms_infls stem)\<rparr>]\<rparr>])"
    by blast
next
  assume "\<not> (\<forall>r \<in> set results. entry_id (res_w r) \<noteq> entry_id dict_word)"
  then obtain rs where rs: "merge_result results dict_word stem = Some rs"
    using merge_result_None [of results dict_word stem] by auto
  with assms have "lookup_stem_step wl stem results = Inr rs"
    by (simp add: lookup_stem_step_def)
  with merge_result_exact [OF rs]
  show "\<exists>pre r post. results = pre @ r # post \<and>
                  (\<forall>x \<in> set pre. entry_id (res_w x) \<noteq> entry_id dict_word) \<and>
                  entry_id (res_w r) = entry_id dict_word \<and>
                  lookup_stem_step wl stem results =
                    Inr (pre @ (if stem \<in> set (res_stems r) then r
                                else r\<lparr>res_stems := res_stems r @ [stem]\<rparr>) # post)"
    by auto
qed

theorem lookup_stems_disambiguates_witness:
  "py_getitem [Some amo_entry]
      (stem_wid (ms_st \<lparr>ms_st = stem_amat, ms_infls = [infl_is_v, infl_us_perf], ms_encl = None\<rparr>)) =
      Inr (Some amo_entry)
   \<and> entry_pos amo_entry = ''V''
   \<and> lookup_stem_step [Some amo_entry]
        \<lparr>ms_st = stem_amat, ms_infls = [infl_is_v, infl_us_perf], ms_encl = None\<rparr> [] =
        Inr [amo_result]
   \<and> lookup_stem_step [Some amo_entry]
        \<lparr>ms_st = stem_am, ms_infls = [infl_atus_pres], ms_encl = None\<rparr> [amo_result] =
        Inr [amo_result\<lparr>res_stems := res_stems amo_result @
               [\<lparr>ms_st = stem_am, ms_infls = [infl_atus_pres], ms_encl = None\<rparr>]\<rparr>]"
proof -
  let ?m = "\<lparr>ms_st = stem_amat, ms_infls = [infl_is_v, infl_us_perf], ms_encl = None\<rparr>"
  have h1: "py_getitem [Some amo_entry] (stem_wid (ms_st ?m)) = Inr (Some amo_entry)"
    by code_simp
  have h2: "entry_pos amo_entry = ''V''"
    by code_simp
  have h3: "stem_orth (ms_st ?m) \<in> set (entry_parts amo_entry)"
    by code_simp
  have h4: "py_index (entry_parts amo_entry) (stem_orth (ms_st ?m)) = Inr 3"
    by code_simp
  from lookup_stems_disambiguates [OF h1 h2, of "[]"] h3 h4
  have "lookup_stem_step [Some amo_entry] ?m [] =
          Inr [\<lparr>res_w = amo_entry, res_enclitic = ms_encl ?m,
                res_stems = [?m\<lparr>ms_infls := filter (\<lambda>i. infl_pos i \<noteq> ''V'') (ms_infls ?m)\<rparr>]\<rparr>]"
    by auto
  moreover have "filter (\<lambda>i. infl_pos i \<noteq> ''V'') (ms_infls ?m) = [infl_us_perf]"
    by code_simp
  ultimately have "lookup_stem_step [Some amo_entry] ?m [] = Inr [amo_result]"
    by (simp add: amo_result_def)
  moreover have "lookup_stem_step [Some amo_entry]
        \<lparr>ms_st = stem_am, ms_infls = [infl_atus_pres], ms_encl = None\<rparr> [amo_result] =
        Inr [amo_result\<lparr>res_stems := res_stems amo_result @
               [\<lparr>ms_st = stem_am, ms_infls = [infl_atus_pres], ms_encl = None\<rparr>]\<rparr>]"
    by code_simp
  ultimately show ?thesis using h1 h2 by simp
qed

text \<open>
  The claim C4 as it is written fails on the text \<open>amatus\<close>: the stem \<open>amat\<close> enters
  the results first, the stem \<open>am\<close> of the same verb joins it, and although \<open>am\<close> is at
  position 0 of the principal parts, its VPAR ending stays.
\<close>

theorem disambiguation_skipped_counterexample:
  "analyze_direct sample_parser \<lparr>base = ''amatus'', encl = None\<rparr> =
     Inr [\<lparr>res_w = amo_entry, res_enclitic = None,
           res_stems = [\<lparr>ms_st = stem_amat, ms_infls = [infl_us_perf], ms_encl = None\<rparr>,
                        \<lparr>ms_st = stem_am, ms_infls = [infl_atus_pres], ms_encl = None\<rparr>]\<rparr>]
   \<and> entry_pos amo_entry = ''V''
   \<and> py_index (entry_parts amo_entry) (stem_orth stem_am) = Inr 0
   \<and> infl_pos infl_atus_pres = ''VPAR''"
  by code_simp

lemma first_prefix_None:
  "first_prefix ps s = None \<longleftrightarrow> (\<forall>b \<in> set ps. \<not> startswith s (addon_orth b))"
  by (induction ps) auto

lemma first_suffix_None:
  "first_suffix ss s = None \<longleftrightarrow> (\<forall>b \<in> set ss. \<not> endswith s (addon_orth b))"
  by (induction ss) auto

lemma strip_prefix_exact:
  "(case first_prefix ps s of None \<Rightarrow> s | Some prefix \<Rightarrow> sub_prefix (addon_orth prefix) s) = s1 \<Longrightarrow>
     (if \<forall>a \<in> set ps. \<not> startswith s (addon_orth a) then s1 = s
      else \<exists>xs a ys. ps = xs @ a # ys \<and> (\<forall>b \<in> set xs. \<not> startswith s (addon_orth b)) \<and>
             s = addon_orth a @ s1)"
proof (cases "first_prefix ps s")
  case None
  assume "(case first_prefix ps s of None \<Rightarrow> s | Some prefix \<Rightarrow> sub_prefix (addon_orth prefix) s) = s1"
  with None first_prefix_None [of ps s] show ?thesis by simp
next
  case (Some a)
  assume "(case first_prefix ps s of None \<Rightarrow> s | Some prefix \<Rightarrow> sub_prefix (addon_orth prefix) s) = s1"
  with Some have s1: "s1 = sub_prefix (addon_orth a) s" by simp
  from first_prefix_Some [OF Some] have m: "startswith s (addon_orth a)" "a \<in> set ps" by simp_all
  from first_prefix_split [OF Some] obtain xs ys where
    "ps = xs @ a # ys" "\<forall>b \<in> set xs. \<not> startswith s (addon_orth b)" by blast
  moreover from m(1) s1 have "s = addon_orth a @ s1" using sub_prefix_startswith by simp
  ultimately show ?thesis using m by auto
qed

lemma strip_suffix_exact:
  "(case first_suffix ss s1 of None \<Rightarrow> s1 | Some suffix \<Rightarrow> sub_suffix (addon_orth suffix) s1) = s2 \<Longrightarrow>
     (if \<forall>b \<in> set ss. \<not> endswith s1 (addon_orth b) then s2 = s1
      else \<exists>xs b ys. ss = xs @ b # ys \<and> (\<forall>c \<in> set xs. \<not> endswith s1 (addon_orth c)) \<and>
             s1 = s2 @ addon_orth b)"
proof (cases "first_suffix ss s1")
  case None
  assume "(case first_suffix ss s1 of None \<Rightarrow> s1 | Some suffix \<Rightarrow> sub_suffix (addon_orth suffix) s1) = s2"
  with None first_suffix_None [of ss s1] show ?thesis by simp
next
  case (Some b)
  assume "(case first_suffix ss s1 of None \<Rightarrow> s1 | Some suffix \<Rightarrow> sub_suffix (addon_orth suffix) s1) = s2"
  with Some have s2: "s2 = sub_suffix (addon_orth b) s1" by simp
  from first_suffix_Some [OF Some] have m: "endswith s1 (addon_orth b)" "b \<in> set ss" by simp_all
  from first_suffix_split [OF Some] obtain xs ys where
    "ss = xs @ b # ys" "\<forall>c \<in> set xs. \<not> endswith s1 (addon_orth c)" by blast
  moreover from m(1) s2 have "s1 = s2 @ addon_orth b" using sub_suffix_endswith by simp
  ultimately show ?thesis using m by auto
qed

lemma reduce_base_exact:
  "\<exists>s1.
     (case addons p ''prefixes'' of
        None \<Rightarrow> s1 = s
      | Some ps \<Rightarrow>
          (if \<forall>a \<in> set ps. \<not> startswith s (addon_orth a) then s1 = s
           else \<exists>xs a ys. ps = xs @ a # ys \<and> (\<forall>b \<in> set xs. \<not> startswith s (addon_orth b)) \<and>
                  s = addon_orth a @ s1))
     \<and> (case addons p ''suffixes'' of
          None \<Rightarrow> reduce_base p s = s1
        | Some ss \<Rightarrow>
            (if \<forall>b \<in> set ss. \<not> endswith s1 (addon_orth b) then reduce_base p s = s1
             else \<exists>xs b ys. ss = xs @ b # ys \<and> (\<forall>c \<in> set xs. \<not> endswith s1 (addon_orth c)) \<and>
                    s1 = reduce_base p s @ addon_orth b))"
proof -
  define s1 where "s1 = (case addons p ''prefixes'' of None \<Rightarrow> s
     | Some ps \<Rightarrow> (case first_prefix ps s of None \<Rightarrow> s | Some a \<Rightarrow> sub_prefix (addon_orth a) s))"
  have r: "reduce_base p s = (case addons p ''suffixes'' of None \<Rightarrow> s1
     | Some ss \<Rightarrow> (case first_suffix ss s1 of None \<Rightarrow> s1 | Some b \<Rightarrow> sub_suffix (addon_orth b) s1))"
    unfolding reduce_base_def s1_def Let_def by (rule refl)
  have A: "case addons p ''prefixes'' of
        None \<Rightarrow> s1 = s
      | Some ps \<Rightarrow>
          (if \<forall>a \<in> set ps. \<not> startswith s (addon_orth a) then s1 = s
           else \<exists>xs a ys. ps = xs @ a # ys \<and> (\<forall>b \<in> set xs. \<not> startswith s (addon_orth b)) \<and>
                  s = addon_orth a @ s1)"
  proof (cases "addons p ''prefixes''")
    case None
    then show ?thesis by (simp add: s1_def)
  next
    case (Some ps)
    then have "(case first_prefix ps s of None \<Rightarrow> s | Some prefix \<Rightarrow> sub_prefix (addon_orth prefix) s) = s1"
      by (simp add: s1_def)
    from strip_prefix_exact [OF this] Some show ?thesis by simp
  qed
  have B: "case addons p ''suffixes'' of
          None \<Rightarrow> reduce_base p s = s1
        | Some ss \<Rightarrow>
            (if \<forall>b \<in> set ss. \<not> endswith s1 (addon_orth b) then reduce_base p s = s1
             else \<exists>xs b ys. ss = xs @ b # ys \<and> (\<forall>c \<in> set xs. \<not> endswith s1 (addon_orth c)) \<and>
                    s1 = reduce_base p s @ addon_orth b)"
  proof (cases "addons p ''suffixes''")
    case None
    then show ?thesis by (simp add: r)
  next
    case (Some ss)
    then have "(case first_suffix ss s1 of None \<Rightarrow> s1 | Some suffix \<Rightarrow> sub_suffix (addon_orth suffix) s1) =
        reduce_base p s"
      by (simp add: r)
    from strip_suffix_exact [OF this] Some show ?thesis by simp
  qed
  from A B show ?thesis by blast
qed

lemma foldE_invariant:
  assumes "foldE f xs s = Inr s'" and "I s"
    and "\<And>x t t'. x \<in> set xs \<Longrightarrow> I t \<Longrightarrow> f x t = Inr t' \<Longrightarrow> I t'"
  shows "I s'"
  using assms
proof (induction xs arbitrary: s)
  case Nil
  then show ?case by simp
next
  case (Cons x xs)
  from Cons.prems(1) obtain s1 where s1: "f x s = Inr s1" "foldE f xs s1 = Inr s'"
    by (auto split: sum.splits)
  from Cons.prems(3) [of x s s1] Cons.prems(2) s1(1) have i1: "I s1" by simp
  show ?case
  proof (rule Cons.IH [OF s1(2) i1])
    fix y t t'
    assume "y \<in> set xs" "I t" "f y t = Inr t'"
    then show "I t'" using Cons.prems(3) [of y t t'] by simp
  qed
qed

lemma remove_extra_infls_total: "\<exists>stem'. remove_extra_infls stem t = Inr stem'"
  by (simp add: remove_extra_infls_filter)

lemma lookup_stem_step_stems:
  assumes "lookup_stem_step wl stem results = Inr results'"
    and "\<forall>r \<in> set results. res_stems r \<noteq> []"
  shows "\<forall>r \<in> set results'. res_stems r \<noteq> []"
proof (cases "py_getitem wl (stem_wid (ms_st stem))")
  case (Inl e)
  with assms show ?thesis by (simp add: lookup_stem_step_def)
next
  case (Inr slot)
  show ?thesis
  proof (cases slot)
    case None
    with Inr assms show ?thesis by (simp add: lookup_stem_step_def)
  next
    case (Some dict_word)
    show ?thesis
    proof (cases "merge_result results dict_word stem")
      case None
      with Inr Some assms(1) obtain stem' where
        "results' = results @ [\<lparr>res_w = dict_word, res_enclitic = ms_encl stem', res_stems = [stem']\<rparr>]"
        by (auto simp: lookup_stem_step_def bindE_def split: sum.splits)
      with assms(2) show ?thesis by auto
    next
      case (Some rs)
      with Inr \<open>slot = Some dict_word\<close> assms(1) have eq: "results' = rs"
        by (simp add: lookup_stem_step_def)
      from merge_result_exact [OF Some] obtain pre r post where
        "results = pre @ r # post"
        "rs = pre @ (if stem \<in> set (res_stems r) then r
                    else r\<lparr>res_stems := res_stems r @ [stem]\<rparr>) # post"
        by blast
      with assms(2) eq show ?thesis by auto
    qed
  qed
qed

lemma lookup_stems_stems:
  assumes "lookup_stems wl match_stems = Inr results"
  shows "\<forall>r \<in> set results. res_stems r \<noteq> []"
proof -
  from assms have f: "foldE (lookup_stem_step wl) (concat (od_values match_stems)) [] = Inr results"
    by (simp add: lookup_stems_def)
  show ?thesis
    by (rule foldE_invariant [where I = "\<lambda>rs. \<forall>r \<in> set rs. res_stems r \<noteq> []", OF f])
       (use lookup_stem_step_stems in auto)
qed

lemma analyze_direct_stems:
  "analyze_direct p w = Inr out \<Longrightarrow> \<forall>r \<in> set out. res_stems r \<noteq> []"
  by (auto simp: analyze_direct_def bindE_def split: sum.splits dest: lookup_stems_stems)

lemma reduce_keeps:
  "reduce p w = analyze_direct p (w\<lparr>base := reduce_base p (base w)\<rparr>)"
proof (cases "analyze_direct p (w\<lparr>base := reduce_base p (base w)\<rparr>)")
  case (Inl e)
  then show ?thesis by simp
next
  case (Inr out)
  from analyze_direct_stems [OF Inr] have "out \<noteq> [] \<Longrightarrow> \<exists>r \<in> set out. 0 < length (res_stems r)"
    by (cases out) auto
  with Inr show ?thesis by auto
qed

text \<open>
  C9, as the code has it. Reduction is one-shot. With the flag \<open>reduced\<close> set,
  \<open>analyze_forms\<close> is the direct pipeline and never reduces; with the flag unset it
  reduces exactly when the direct pipeline returns no result. \<open>reduce\<close> runs the direct
  pipeline once, on the reduced base, and tests whether that result is not empty while
  none of its entries has a stem. Every entry the pipeline returns has a stem, so the test
  discards nothing: \<open>reduce\<close> returns the result of that one run as it is. The reduced
  base is what is left of the base when the first matching entry of the prefix table, if
  there is one, is taken off its front, and then the first matching entry of the suffix
  table, if there is one, off its end.
\<close>

theorem reduction_one_shot:
  "analyze_forms p w True = analyze_direct p w
   \<and> analyze_forms p w False =
       (case analyze_direct p w of Inl e \<Rightarrow> Inl e
        | Inr forms \<Rightarrow> if forms = [] then reduce p w else Inr forms)
   \<and> reduce p w =
       (case analyze_direct p (w\<lparr>base := reduce_base p (base w)\<rparr>) of Inl e \<Rightarrow> Inl e
        | Inr out \<Rightarrow>
            if out \<noteq> [] \<and> list_all (\<lambda>r. res_stems r = []) out then Inr [] else Inr out)
   \<and> (\<forall>w' out. analyze_direct p w' = Inr out \<longrightarrow> list_all (\<lambda>r. res_stems r \<noteq> []) out)
   \<and> reduce p w = analyze_direct p (w\<lparr>base := reduce_base p (base w)\<rparr>)
   \<and> (\<exists>s1.
        (case addons p ''prefixes'' of
           None \<Rightarrow> s1 = base w
         | Some ps \<Rightarrow>
             (if \<forall>a \<in> set ps. \<not> startswith (base w) (addon_orth a) then s1 = base w
              else \<exists>xs a ys. ps = xs @ a # ys \<and>
                     (\<forall>b \<in> set xs. \<not> startswith (base w) (addon_orth b)) \<and>
                     base w = addon_orth a @ s1))
        \<and> (case addons p ''suffixes'' of
             None \<Rightarrow> reduce_base p (base w) = s1
           | Some ss \<Rightarrow>
               (if \<forall>b \<in> set ss. \<not> endswith s1 (addon_orth b) then reduce_base p (base w) = s1
                else \<exists>xs b ys. ss = xs @ b # ys \<and>
                       (\<forall>c \<in> set xs. \<not> endswith s1 (addon_orth c)) \<and>
                       s1 = reduce_base p (base w) @ addon_orth b)))"
proof -
  have "\<forall>w' out. analyze_direct p w' = Inr out \<longrightarrow> list_all (\<lambda>r. res_stems r \<noteq> []) out"
    using analyze_direct_stems by (auto simp: list_all_iff)
  then show ?thesis
    using analyze_forms_reduced [of p w] analyze_forms_fresh [of p w] reduce_once [of p w]
      reduce_keeps [of p w] reduce_base_exact [where p = p and s = "base w"]
    by blast
qed

theorem reduction_one_shot_witness:
  "analyze_direct sample_parser_affixes \<lparr>base = ''reamatusce'', encl = None\<rparr> = Inr []
   \<and> addons sample_parser_affixes ''prefixes'' = Some [addon_ab, addon_re]
   \<and> \<not> startswith ''reamatusce'' (addon_orth addon_ab)
   \<and> ''reamatusce'' = addon_orth addon_re @ ''amatusce''
   \<and> addons sample_parser_affixes ''suffixes'' = Some [addon_ce]
   \<and> ''amatusce'' = ''amatus'' @ addon_orth addon_ce
   \<and> reduce_base sample_parser_affixes ''reamatusce'' = ''amatus''
   \<and> analyze_forms sample_parser_affixes \<lparr>base = ''reamatusce'', encl = None\<rparr> False =
       Inr [\<lparr>res_w = amo_entry, res_enclitic = None,
             res_stems = [\<lparr>ms_st = stem_amat, ms_infls = [infl_us_perf], ms_encl = None\<rparr>,
                          \<lparr>ms_st = stem_am, ms_infls = [infl_atus_pres], ms_encl = None\<rparr>]\<rparr>]"
proof -
  have a: "analyze_direct sample_parser_affixes \<lparr>base = ''reamatusce'', encl = None\<rparr> = Inr []"
    by code_simp
  have b: "reduce_base sample_parser_affixes ''reamatusce'' = ''amatus''"
    by code_simp
  have c: "analyze_direct sample_parser_affixes \<lparr>base = ''amatus'', encl = None\<rparr> =
       Inr [\<lparr>res_w = amo_entry, res_enclitic = None,
             res_stems = [\<lparr>ms_st = stem_amat, ms_infls = [infl_us_perf], ms_encl = None\<rparr>,
                          \<lparr>ms_st = stem_am, ms_infls = [infl_atus_pres], ms_encl = None\<rparr>]\<rparr>]"
    by code_simp
  have d: "addons sample_parser_affixes ''prefixes'' = Some [addon_ab, addon_re]"
    "\<not> startswith ''reamatusce'' (addon_orth addon_ab)"
    "''reamatusce'' = addon_orth addon_re @ ''amatusce''"
    "addons sample_parser_affixes ''suffixes'' = Some [addon_ce]"
    "''amatusce'' = ''amatus'' @ addon_orth addon_ce"
    by code_simp+
  have "analyze_forms sample_parser_affixes \<lparr>base = ''reamatusce'', encl = None\<rparr> False =
          analyze_direct sample_parser_affixes \<lparr>base = ''amatus'', encl = None\<rparr>"
  proof -
    let ?w = "\<lparr>base = ''reamatusce'', encl = None\<rparr>"
    have "analyze_forms sample_parser_affixes ?w False =
            (case analyze_direct sample_parser_affixes ?w of Inl e \<Rightarrow> Inl e
             | Inr forms \<Rightarrow> if forms = [] then reduce sample_parser_affixes ?w else Inr forms)"
      and "reduce sample_parser_affixes ?w =
            analyze_direct sample_parser_affixes
              (?w\<lparr>base := reduce_base sample_parser_affixes (base ?w)\<rparr>)"
      using reduction_one_shot [of sample_parser_affixes ?w] by blast+
    with a b show ?thesis by (simp del: analyze_forms.simps reduce.simps)
  qed
  with a b c d show ?thesis by (simp del: analyze_forms.simps reduce.simps)
qed

text \<open>
  The claim C9 as it is written fails on the text \<open>reamatis\<close>: the reduced base
  \<open>amatis\<close> gives one entry whose only stem has lost all its endings to the verb and
  participle decision, and \<open>reduce\<close> returns this entry instead of the empty list.
\<close>

theorem reduced_placeholder_kept_counterexample:
  "analyze_direct sample_parser_is \<lparr>base = ''reamatis'', encl = None\<rparr> = Inr []
   \<and> reduce_base sample_parser_is ''reamatis'' = ''amatis''
   \<and> reduce sample_parser_is \<lparr>base = ''reamatis'', encl = None\<rparr> =
       Inr [\<lparr>res_w = amo_entry, res_enclitic = None,
             res_stems = [\<lparr>ms_st = stem_amat, ms_infls = [], ms_encl = None\<rparr>]\<rparr>]
   \<and> analyze_forms sample_parser_is \<lparr>base = ''reamatis'', encl = None\<rparr> False =
       Inr [\<lparr>res_w = amo_entry, res_enclitic = None,
             res_stems = [\<lparr>ms_st = stem_amat, ms_infls = [], ms_encl = None\<rparr>]\<rparr>]"
  by code_simp

text \<open>
  The loop of \<open>Parser.parse\<close> in general: a form with uniques adds one entry per unique
  and runs no stem matching; when the last form has no unique, the value of the loop is
  the analysis of that form alone, whatever the earlier forms gave.
\<close>

lemma foldE_append: "foldE f (xs @ ys) s = bindE (foldE f xs s) (foldE f ys)"
  by (induction xs arbitrary: s) (auto simp: bindE_def split: sum.splits)

lemma parse_step_unique:
  assumes "uniques p (base w) = Some unique_forms"
  shows "parse_step p w acc =
           Inr (acc @ map (\<lambda>unique_form. UniqueItem unique_form (encl w)) unique_forms)"
  using assms by (simp add: parse_step_def)

lemma parse_last_regular:
  assumes "uniques p (base w) = None"
  shows "foldE (parse_step p) (ws @ [w]) acc =
           (case foldE (parse_step p) ws acc of
              Inl e \<Rightarrow> Inl e
            | Inr earlier \<Rightarrow> bindE (analyze_forms p w False) (\<lambda>forms. Inr (map StemItem forms)))"
  using assms by (simp add: foldE_append bindE_def parse_step_def split: sum.splits)

text \<open>
  C3 on \<open>Parser.parse\<close> of \<open>parse.py\<close>. The text \<open>eque\<close> is split into \<open>eque\<close> and
  \<open>e\<close> with the tackon \<open>que\<close>. The first form has an analysis; the second has none, and
  since the loop assigns the result of \<open>analyze_forms\<close> to \<open>parse_result\<close>, the parse of
  the text is empty. \<open>Parser.parse\<close> of \<open>parser.py\<close> returns the analysis of the first
  form (headword 1) for the same text.
\<close>

theorem parse_overwrites_results:
  "Parser_split_form_enclitic sample_parser ''eque'' =
     [\<lparr>base = ''eque'', encl = None\<rparr>, \<lparr>base = ''e'', encl = Some addon_que\<rparr>]
   \<and> analyze_forms sample_parser \<lparr>base = ''eque'', encl = None\<rparr> False = Inr [equus_result]
   \<and> analyze_forms sample_parser \<lparr>base = ''e'', encl = Some addon_que\<rparr> False = Inr []
   \<and> Parser_parse sample_parser ''eque'' = Inr []
   \<and> (case Parser_parse_word sample_modules sample_data ''eque'' True of
        Inl e \<Rightarrow> []
      | Inr w \<Rightarrow> map (\<lambda>a. l_id (a_lexeme a)) (Word_get_analyses w)) = [1]"
  by code_simp

text \<open>
  C8 on \<open>Parser.parse\<close> of \<open>parse.py\<close>. The text \<open>quoque\<close> is a registered unique: the
  step for the unmodified form appends the unique's entry without any stem matching. The
  step for the next form, \<open>quo\<close> with the tackon \<open>que\<close>, then assigns its own empty result.
  \<open>Parser.parse\<close> of \<open>parser.py\<close> returns the unique's analysis for the same text.
\<close>

theorem unique_analysis_overwritten:
  "uniques sample_parser ''quoque'' = Some [unique_quoque]
   \<and> Parser_split_form_enclitic sample_parser ''quoque'' =
       [\<lparr>base = ''quoque'', encl = None\<rparr>, \<lparr>base = ''quo'', encl = Some addon_que\<rparr>]
   \<and> parse_step sample_parser \<lparr>base = ''quoque'', encl = None\<rparr> [] =
       Inr [UniqueItem unique_quoque None]
   \<and> parse_step sample_parser \<lparr>base = ''quo'', encl = Some addon_que\<rparr>
        [UniqueItem unique_quoque None] = Inr []
   \<and> Parser_parse sample_parser ''quoque'' = Inr []
   \<and> (case Parser_parse_word sample_modules sample_data ''quoque'' True of
        Inl e \<Rightarrow> []
      | Inr w \<Rightarrow> map (\<lambda>a. l_unique (a_lexeme a)) (Word_get_analyses w)) = [True]"
  by code_simp

lemma check_match_no_parts_raises:
  assumes "infl_pos infl = ''VPAR''" and "stem_pos stem = ''V''"
    and "py_getitem wl (stem_wid stem) = Inr (Some wrd)" and "entry_parts wrd = []"
  shows "check_match wl stem infl = Inl IndexError"
  using assms by (simp add: check_match_def bindE_def py_getitem_last py_getitem_first)

lemma disambiguate_absent_raises:
  assumes "entry_pos dict_word = ''V''"
    and "stem_orth (ms_st stem) \<notin> set (entry_parts dict_word)"
  shows "disambiguate dict_word stem = Inl ValueError"
  using assms by (simp add: disambiguate_def bindE_def py_index_absent)

lemma Analysis_lookup_stem_out_of_range:
  assumes "int (length wl) \<le> l_id (a_lexeme a) \<or> l_id (a_lexeme a) < - int (length wl)"
  shows "Analysis_lookup_stem wl a = Inl IndexError"
  using assms by (auto simp: Analysis_lookup_stem_def bindE_def py_getitem_def)

text \<open>
  C2. The helpers are not total. In \<open>parse.py\<close>, \<open>check_match\<close> raises IndexError for
  a verb entry without principal parts, and \<open>lookup_stems\<close> raises ValueError for a verb
  stem whose spelling is none of the principal parts; the exception leaves
  \<open>Parser.parse\<close>. In \<open>parser.py\<close>, \<open>Analysis.lookup_stem\<close> raises IndexError for a
  headword id outside the word list, and the exception leaves \<open>Parser.parse\<close>.
\<close>

theorem helpers_raise:
  "check_match [Some (amo_entry\<lparr>entry_parts := []\<rparr>)] stem_amat infl_us_perf = Inl IndexError
   \<and> lookup_stems [Some amo_entry]
        [(''ama'', [\<lparr>ms_st = stem_ama, ms_infls = [infl_t_v], ms_encl = None\<rparr>])] = Inl ValueError
   \<and> Parser_parse sample_parser_ama ''amat'' = Inl ValueError
   \<and> Analysis_lookup_stem []
        (Analysis_init \<lparr>l_id = 0, l_category = [], l_roots = [], l_senses = [],
                        l_wordType = EnumMember ''WordType'' ''N'', l_form = [], l_props = [],
                        l_unique = False\<rparr> [] None) = Inl IndexError
   \<and> Parser_parse_word sample_modules (sample_data\<lparr>wordlist := []\<rparr>) ''eque'' True = Inl IndexError"
  by code_simp

text \<open>
  The two segmenters without their loops. \<open>parse.py\<close>: every matching tackon (none for
  the text \<open>est\<close>), then the first packon or not_packon that matches and leaves a base.
  \<open>parser.py\<close>: from each table, every matching affix that leaves a base.
\<close>

lemma tackon_fold:
  "fold (tackon_step s) es result =
     result @ (if s = ''est'' then []
               else map (\<lambda>e. \<lparr>base = sub_suffix (addon_orth e) s, encl = Some e\<rparr>)
                      (filter (\<lambda>e. endswith s (addon_orth e)) es))"
  by (induction es arbitrary: result) (simp_all add: tackon_step_def)

lemma packon_loop_find:
  "packon_loop s es result =
     result @ (case find (\<lambda>e. endswith s (addon_orth e) \<and> sub_suffix (addon_orth e) s \<noteq> []) es of
                 None \<Rightarrow> []
               | Some e \<Rightarrow> [\<lparr>base = sub_suffix (addon_orth e) s, encl = Some e\<rparr>])"
  by (induction es arbitrary: result) (simp_all add: Let_def)

lemma Parser_split_form_enclitic_shape:
  "Parser_split_form_enclitic p s =
     \<lparr>base = s, encl = None\<rparr> #
     (if s = ''est'' then []
      else map (\<lambda>e. \<lparr>base = sub_suffix (addon_orth e) s, encl = Some e\<rparr>)
             (filter (\<lambda>e. endswith s (addon_orth e))
                (case addons p ''tackons'' of None \<Rightarrow> [] | Some es \<Rightarrow> es)))
     @ (case find (\<lambda>e. endswith s (addon_orth e) \<and> sub_suffix (addon_orth e) s \<noteq> [])
              (case addons p (if startswith s ''qu'' then ''packons'' else ''not_packons'') of
                 None \<Rightarrow> [] | Some es \<Rightarrow> es) of
          None \<Rightarrow> []
        | Some e \<Rightarrow> [\<lparr>base = sub_suffix (addon_orth e) s, encl = Some e\<rparr>])"
  by (simp add: Parser_split_form_enclitic_def Let_def tackon_fold packon_loop_find
           split: option.splits)

lemma find_enclitic_fold:
  "fold (\<lambda>affix result.
           if endswith t (addon_orth affix) then
             (let b = sub_suffix (addon_orth affix) t
              in if b \<noteq> [] then result @ [Form_init b (Some (Enclitic_init affix))]
                 else result)
           else result) affixes result0 =
     result0 @ map (\<lambda>affix. Form_init (sub_suffix (addon_orth affix) t) (Some (Enclitic_init affix)))
                 (filter (\<lambda>affix. endswith t (addon_orth affix) \<and> sub_suffix (addon_orth affix) t \<noteq> [])
                    affixes)"
  by (induction affixes arbitrary: result0) (simp_all add: Let_def)

lemma find_enclitic_shape:
  "find_enclitic data t list_name =
     map (\<lambda>affix. Form_init (sub_suffix (addon_orth affix) t) (Some (Enclitic_init affix)))
       (filter (\<lambda>affix. endswith t (addon_orth affix) \<and> sub_suffix (addon_orth affix) t \<noteq> [])
          (case addons data list_name of None \<Rightarrow> [] | Some affixes \<Rightarrow> affixes))"
  by (simp add: find_enclitic_def find_enclitic_fold split: option.splits)

lemma find_enclitic_bases: "form \<in> set (find_enclitic data t list_name) \<Longrightarrow> f_text form \<noteq> []"
  by (auto simp: find_enclitic_shape Form_init_def)

text \<open>
  C5 on \<open>Parser.split_form_enclitic\<close> of \<open>parse.py\<close>. For the text \<open>que\<close> the loop over
  the tackons keeps the form with the empty base that the loop over the packons would
  drop; \<open>Word.split_form_enclitic\<close> of \<open>parser.py\<close> drops it.
\<close>

theorem tackon_keeps_empty_base:
  "Parser_split_form_enclitic sample_parser ''que'' =
     [\<lparr>base = ''que'', encl = None\<rparr>, \<lparr>base = [], encl = Some addon_que\<rparr>]
   \<and> map f_text (w_forms (Word_split_form_enclitic sample_data (Word_init ''que''))) = [''que'']"
  by code_simp

section \<open>Properties of parser.py\<close>

lemma map_of_od_update: "map_of (od_update d k v) = (map_of d)(k \<mapsto> v)"
  by (induction d) (auto simp: fun_eq_iff)






text \<open>
  C10. An inflection built for a noun ending and a stem whose form is not empty carries
  as its feature \<open>Gender\<close> the member of the enum \<open>Gender\<close> named by the first item of
  the stem's form, whatever the form of the ending says.
\<close>

theorem override_gender:
  assumes "Inflection_init E infl stem = Inr i"
    and "i_wordType i = EnumMember ''WordType'' ''N''"
    and "stem_form stem \<noteq> []"
  shows "map_of (i_features i) ''Gender'' = Some (EnumMember ''Gender'' (hd (stem_form stem)))
         \<and> hd (stem_form stem) \<in> set (Gender_names E)"
proof -
  from assms(1) obtain wt d1 d2 where
    wt: "get_enum_value E ''WordType'' (infl_pos infl) = Inr wt" and
    d1: "analyse_features E wt (infl_form infl) [] = Inr d1" and
    d2: "override_features E wt stem d1 = Inr d2" and
    i: "i = \<lparr>i_wordType = wt, i_category = Some (infl_n infl), i_stem = stem_orth stem,
            i_affix = infl_ending infl, i_features = d2, i_id = Some (infl_iid infl)\<rparr>"
    by (auto simp: Inflection_init_def bindE_def split: sum.splits)
  from i assms(2) have "wt = EnumMember ''WordType'' ''N''" by simp
  with d2 assms(3) have
    "hd (stem_form stem) \<in> set (Gender_names E) \<and>
     d2 = od_update d1 ''Gender'' (EnumMember ''Gender'' (hd (stem_form stem)))"
    by (auto simp: override_features_def bindE_def py_getitem_first Gender_getitem_def
             split: sum.splits if_splits)
  with i show ?thesis by (simp add: map_of_od_update)
qed

theorem override_gender_witness:
  "Inflection_init sample_modules ninfl_e_voc nstem_equ =
     Inr \<lparr>i_wordType = EnumMember ''WordType'' ''N'', i_category = Some [2, 1],
          i_stem = ''equ'', i_affix = ''e'',
          i_features = [(''Case'', EnumMember ''Case'' ''VOC''),
                        (''Number'', EnumMember ''Number'' ''S''),
                        (''Gender'', EnumMember ''Gender'' ''M'')],
          i_id = Some 2\<rparr>
   \<and> stem_form nstem_equ \<noteq> []
   \<and> infl_form ninfl_e_voc = [''VOC'', ''S'', ''X'']
   \<and> hd (stem_form nstem_equ) = ''M''
   \<and> hd (stem_form nstem_equ) \<in> set (Gender_names sample_modules)"
proof -
  let ?i = "\<lparr>i_wordType = EnumMember ''WordType'' ''N'', i_category = Some [2, 1],
          i_stem = ''equ'', i_affix = ''e'',
          i_features = [(''Case'', EnumMember ''Case'' ''VOC''),
                        (''Number'', EnumMember ''Number'' ''S''),
                        (''Gender'', EnumMember ''Gender'' ''M'')],
          i_id = Some 2\<rparr>"
  have h1: "Inflection_init sample_modules ninfl_e_voc nstem_equ = Inr ?i"
    by code_simp
  have h2: "i_wordType ?i = EnumMember ''WordType'' ''N''"
    by simp
  have h3: "stem_form nstem_equ \<noteq> []"
    by (simp add: nstem_equ_def)
  have h4: "infl_form ninfl_e_voc = [''VOC'', ''S'', ''X'']" "hd (stem_form nstem_equ) = ''M''"
    by (simp_all add: ninfl_e_voc_def nstem_equ_def)
  from override_gender [OF h1 h2 h3] h1 h3 h4 show ?thesis by simp
qed
















































text \<open>
  In \<open>parser.py\<close> every form keeps its own analyses: what \<open>Word.get_analyses\<close> returns
  after \<open>Word.analyse\<close> is the concatenation, over all the forms of the word, of the
  analyses each form is left with. Dropping the forms without analyses changes nothing.
\<close>

lemma concat_filter_nonempty:
  "concat (map (\<lambda>form. od_values (f_analyses form)) (filter (\<lambda>form. f_analyses form \<noteq> []) fs)) =
   concat (map (\<lambda>form. od_values (f_analyses form)) fs)"
  by (induction fs) (simp_all add: od_values_def)

lemma Word_get_analyses_all_forms:
  assumes "Word_analyse E data apply_filter w = Inr w'"
  shows "\<exists>forms'. mapE (analyse_form E data apply_filter) (w_forms w) = Inr forms' \<and>
           Word_get_analyses w' = concat (map (\<lambda>form. od_values (f_analyses form)) forms')"
proof -
  from assms obtain forms' where
    f: "mapE (analyse_form E data apply_filter) (w_forms w) = Inr forms'" and
    w': "w' = (if apply_filter then Word_filter_good_forms (w\<lparr>w_forms := forms'\<rparr>)
              else w\<lparr>w_forms := forms'\<rparr>)"
    by (auto simp: Word_analyse_def bindE_def split: sum.splits)
  have "Word_get_analyses w' = concat (map (\<lambda>form. od_values (f_analyses form)) forms')"
    by (simp add: w' Word_get_analyses_def Word_filter_good_forms_def concat_filter_nonempty)
  with f show ?thesis by blast
qed

end
